theory Spec2Isabelle
  imports Complex_Main
begin

section \<open>Values, errors and the random source\<close>

text \<open>
  The development embeds the layout search engine of the interior module:
  \<^verbatim>\<open>geometry.py\<close>, \<^verbatim>\<open>constraints.py\<close>, \<^verbatim>\<open>fitness.py\<close> and \<^verbatim>\<open>optimizer.py\<close>.
  In the geometric part Python floats are mathematical reals: the numbers there come from
  Shapely, which is a parameter of the model. The display score
  \<^verbatim>\<open>calculate_normalized_score\<close> is computed with the rounded operations of IEEE binary64
  (section \<open>Binary64 arithmetic\<close> below), because rounding decides what it returns next to 50.
  Every exception the Python code can raise is a value of type \<open>error\<close>; a function
  that can raise returns \<open>error + 'a\<close>, with \<open>Inl\<close> for the exception.
\<close>

datatype error = ValueError | IndexError | ZeroDivisionError | GEOSException | RuntimeError

type_synonym point = "real \<times> real"

text \<open>A polygon is the vertex sequence handed to \<^verbatim>\<open>shapely.geometry.Polygon\<close>.\<close>

type_synonym polygon = "point list"

text \<open>A placement is the tuple \<^verbatim>\<open>(x, y, rot)\<close>; a layout (individual) is a list of them.\<close>

type_synonym placement = "real \<times> real \<times> int"

type_synonym layout = "placement list"

text \<open>
  A furniture item is a dict with the keys \<^verbatim>\<open>width\<close> and \<^verbatim>\<open>depth\<close>; the key
  \<^verbatim>\<open>rotatable\<close> is read with \<^verbatim>\<open>item.get("rotatable", True)\<close>, so it may be absent.
\<close>

record furniture_item =
  item_id :: string
  width :: real
  depth :: real
  rotatable :: "bool option"

definition get_rotatable :: "furniture_item \<Rightarrow> bool" where
  "get_rotatable item = (case rotatable item of None \<Rightarrow> True | Some b \<Rightarrow> b)"

text \<open>
  Python's module \<^verbatim>\<open>random\<close> keeps a hidden global generator. Its state is modelled as
  the infinite sequence of raw numbers the generator will still produce; every call
  consumes the head of the sequence. \<^verbatim>\<open>random()\<close> is a multiple of \<open>2\<^sup>-\<^sup>5\<^sup>3\<close> in
  \<open>[0, 1)\<close>, \<^verbatim>\<open>uniform(a, b)\<close> is \<^verbatim>\<open>a + (b - a) * random()\<close>, \<^verbatim>\<open>randint(a, b)\<close> raises
  \<^verbatim>\<open>ValueError\<close> on an empty range and \<^verbatim>\<open>choice\<close> raises \<^verbatim>\<open>IndexError\<close> on an empty
  sequence.
\<close>

type_synonym rng = "nat \<Rightarrow> nat"

definition rng_tail :: "rng \<Rightarrow> rng" where
  "rng_tail g = (\<lambda>i. g (Suc i))"

definition random_random :: "rng \<Rightarrow> real \<times> rng" where
  "random_random g = (real (g 0 mod 2 ^ 53) / 2 ^ 53, rng_tail g)"

definition random_uniform :: "real \<Rightarrow> real \<Rightarrow> rng \<Rightarrow> real \<times> rng" where
  "random_uniform a b g = (case random_random g of (u, g') \<Rightarrow> (a + (b - a) * u, g'))"

definition random_randint :: "int \<Rightarrow> int \<Rightarrow> rng \<Rightarrow> error + (int \<times> rng)" where
  "random_randint a b g =
     (if b < a then Inl ValueError
      else Inr (a + int (g 0 mod nat (b - a + 1)), rng_tail g))"

definition random_choice :: "'a list \<Rightarrow> rng \<Rightarrow> error + ('a \<times> rng)" where
  "random_choice xs g =
     (if xs = [] then Inl IndexError
      else Inr (xs ! (g 0 mod length xs), rng_tail g))"

section \<open>The genetic operators of \<^verbatim>\<open>optimizer.py\<close>\<close>

text \<open>
  \<^verbatim>\<open>create_individual\<close>: one placement per furniture item, the position uniform in the
  bounding box of the room, the rotation drawn from \<open>[0, 90, 180, 270]\<close> when the item is
  rotatable and \<open>0\<close> otherwise.
\<close>

fun create_individual_loop ::
  "real \<times> real \<times> real \<times> real \<Rightarrow> furniture_item list \<Rightarrow> layout \<Rightarrow> rng \<Rightarrow> error + (layout \<times> rng)"
where
  "create_individual_loop bnds [] layout g = Inr (layout, g)"
| "create_individual_loop (min_x, min_y, max_x, max_y) (item # items) layout g =
     (case random_uniform min_x max_x g of (x, g1) \<Rightarrow>
      case random_uniform min_y max_y g1 of (y, g2) \<Rightarrow>
      case (if get_rotatable item then random_choice [0, 90, 180, 270] g2 else Inr (0, g2)) of
        Inl e \<Rightarrow> Inl e
      | Inr (rot, g3) \<Rightarrow>
          create_individual_loop (min_x, min_y, max_x, max_y) items (layout @ [(x, y, rot)]) g3)"

definition create_individual ::
  "real \<times> real \<times> real \<times> real \<Rightarrow> furniture_item list \<Rightarrow> rng \<Rightarrow> error + (layout \<times> rng)"
where
  "create_individual bnds items g = create_individual_loop bnds items [] g"

text \<open>
  \<^verbatim>\<open>crossover\<close>: the cut point is \<^verbatim>\<open>random.randint(1, len(self.furniture_items) - 1)\<close>;
  the slices \<^verbatim>\<open>p[:point]\<close> and \<^verbatim>\<open>p[point:]\<close> are \<open>take\<close> and \<open>drop\<close>, the point being
  positive whenever \<^verbatim>\<open>randint\<close> returns.
\<close>

definition crossover ::
  "furniture_item list \<Rightarrow> layout \<Rightarrow> layout \<Rightarrow> rng \<Rightarrow> error + ((layout \<times> layout) \<times> rng)"
where
  "crossover items parent1 parent2 g =
     (case random_randint 1 (int (length items) - 1) g of
        Inl e \<Rightarrow> Inl e
      | Inr (point, g') \<Rightarrow>
          Inr ((take (nat point) parent1 @ drop (nat point) parent2,
                take (nat point) parent2 @ drop (nat point) parent1), g'))"

text \<open>
  \<^verbatim>\<open>mutate\<close>: the loop over \<^verbatim>\<open>range(len(individual))\<close> updates the list in place. The
  rotation is resampled without looking at the furniture item.
\<close>

fun mutate_loop :: "real \<Rightarrow> nat list \<Rightarrow> layout \<Rightarrow> rng \<Rightarrow> error + (layout \<times> rng)" where
  "mutate_loop mutation_rate [] individual g = Inr (individual, g)"
| "mutate_loop mutation_rate (i # is) individual g =
     (case random_random g of (r, g1) \<Rightarrow>
      if r < mutation_rate then
        (case individual ! i of (x, y, rot) \<Rightarrow>
         case random_uniform (- 0.5) 0.5 g1 of (dx, g2) \<Rightarrow>
         case random_uniform (- 0.5) 0.5 g2 of (dy, g3) \<Rightarrow>
         case random_random g3 of (r2, g4) \<Rightarrow>
         case (if r2 < 0.5 then random_choice [0, 90, 180, 270] g4 else Inr (rot, g4)) of
           Inl e \<Rightarrow> Inl e
         | Inr (rot', g5) \<Rightarrow>
             mutate_loop mutation_rate is (individual[i := (x + dx, y + dy, rot')]) g5)
      else mutate_loop mutation_rate is individual g1)"

definition mutate :: "layout \<Rightarrow> real \<Rightarrow> rng \<Rightarrow> error + (layout \<times> rng)" where
  "mutate individual mutation_rate g =
     mutate_loop mutation_rate [0..<length individual] individual g"

section \<open>The Shapely operations used by the code\<close>

text \<open>
  Shapely is an external library. The code only uses the operations below; they are a
  parameter of the model. The binary GEOS operations may raise, so they return
  \<open>error + _\<close>. \<open>shp_intersection_area L a b\<close> stands for \<^verbatim>\<open>a.intersection(b).area\<close>,
  \<open>shp_boundary_distance L room p\<close> for \<^verbatim>\<open>room.boundary.distance(Point(p))\<close>,
  \<open>shp_rotate L poly angle\<close> for \<^verbatim>\<open>rotate(poly, angle, origin=(0, 0))\<close>.
\<close>

record shapely =
  shp_contains :: "polygon \<Rightarrow> polygon \<Rightarrow> error + bool"
  shp_intersects :: "polygon \<Rightarrow> polygon \<Rightarrow> error + bool"
  shp_intersection_area :: "polygon \<Rightarrow> polygon \<Rightarrow> error + real"
  shp_area :: "polygon \<Rightarrow> real"
  shp_bounds :: "polygon \<Rightarrow> real \<times> real \<times> real \<times> real"
  shp_centroid :: "polygon \<Rightarrow> point"
  shp_boundary_distance :: "polygon \<Rightarrow> point \<Rightarrow> error + real"
  shp_rotate :: "polygon \<Rightarrow> int \<Rightarrow> polygon"
  shp_translate :: "polygon \<Rightarrow> real \<Rightarrow> real \<Rightarrow> polygon"

section \<open>\<^verbatim>\<open>geometry.py\<close>\<close>

definition create_furniture_polygon ::
  "shapely \<Rightarrow> real \<Rightarrow> real \<Rightarrow> real \<Rightarrow> real \<Rightarrow> int \<Rightarrow> polygon"
where
  "create_furniture_polygon L x y w d angle =
     (let half_w = w / 2;
          half_d = d / 2;
          coords = [(- half_w, - half_d), (half_w, - half_d), (half_w, half_d), (- half_w, half_d)];
          poly = (if angle \<noteq> 0 then shp_rotate L coords angle else coords)
      in shp_translate L poly x y)"

definition check_intersection :: "shapely \<Rightarrow> polygon \<Rightarrow> polygon \<Rightarrow> error + bool" where
  "check_intersection L poly1 poly2 = shp_intersects L poly1 poly2"

definition check_containment :: "shapely \<Rightarrow> polygon \<Rightarrow> polygon \<Rightarrow> error + bool" where
  "check_containment L container item = shp_contains L container item"

definition calculate_overlap_area :: "shapely \<Rightarrow> polygon \<Rightarrow> polygon \<Rightarrow> error + real" where
  "calculate_overlap_area L poly1 poly2 =
     (case shp_intersects L poly1 poly2 of
        Inl e \<Rightarrow> Inl e
      | Inr b \<Rightarrow> if \<not> b then Inr 0 else shp_intersection_area L poly1 poly2)"

definition distance_to_wall :: "shapely \<Rightarrow> point \<Rightarrow> polygon \<Rightarrow> error + real" where
  "distance_to_wall L p room = shp_boundary_distance L room p"

section \<open>\<^verbatim>\<open>constraints.py\<close>: the class \<^verbatim>\<open>ConstraintChecker\<close>\<close>

text \<open>The checker holds the room polygon; its door and window lists are never read.\<close>

definition create_furniture_polygon_wrapper ::
  "shapely \<Rightarrow> furniture_item \<Rightarrow> real \<Rightarrow> real \<Rightarrow> int \<Rightarrow> polygon"
where
  "create_furniture_polygon_wrapper L item x y rot =
     create_furniture_polygon L x y (width item) (depth item) rot"

definition check_boundary :: "shapely \<Rightarrow> polygon \<Rightarrow> polygon \<Rightarrow> error + bool" where
  "check_boundary L room furniture_poly = check_containment L room furniture_poly"

fun check_overlap :: "shapely \<Rightarrow> polygon \<Rightarrow> polygon list \<Rightarrow> error + bool" where
  "check_overlap L furniture_poly [] = Inr False"
| "check_overlap L furniture_poly (other # others) =
     (case check_intersection L furniture_poly other of
        Inl e \<Rightarrow> Inl e
      | Inr hit \<Rightarrow>
          if hit then
            (case calculate_overlap_area L furniture_poly other of
               Inl e \<Rightarrow> Inl e
             | Inr a \<Rightarrow> if a > 0.01 then Inr True else check_overlap L furniture_poly others)
          else check_overlap L furniture_poly others)"

definition check_hard_constraints :: "shapely \<Rightarrow> polygon \<Rightarrow> polygon \<Rightarrow> polygon list \<Rightarrow> error + bool" where
  "check_hard_constraints L room furniture_poly other_polys =
     (case check_boundary L room furniture_poly of
        Inl e \<Rightarrow> Inl e
      | Inr inside \<Rightarrow>
          if \<not> inside then Inr False
          else (case check_overlap L furniture_poly other_polys of
                  Inl e \<Rightarrow> Inl e
                | Inr ov \<Rightarrow> if ov then Inr False else Inr True))"

definition get_nearest_wall_distance :: "shapely \<Rightarrow> polygon \<Rightarrow> polygon \<Rightarrow> error + real" where
  "get_nearest_wall_distance L room furniture_poly =
     distance_to_wall L (shp_centroid L furniture_poly) room"

section \<open>\<^verbatim>\<open>fitness.py\<close>: the class \<^verbatim>\<open>FitnessEvaluator\<close>\<close>

text \<open>
  The first loop of \<^verbatim>\<open>calculate_fitness\<close> enumerates the furniture items, reads
  \<^verbatim>\<open>layout[i]\<close> (an \<^verbatim>\<open>IndexError\<close> when the layout is too short), builds the footprint
  and adds \<open>1000\<close> when it is not inside the room.
\<close>

fun boundary_pass ::
  "shapely \<Rightarrow> polygon \<Rightarrow> layout \<Rightarrow> furniture_item list \<Rightarrow> nat \<Rightarrow> polygon list \<Rightarrow> real
   \<Rightarrow> error + (polygon list \<times> real)"
where
  "boundary_pass L room layout [] i furniture_polys penalty = Inr (furniture_polys, penalty)"
| "boundary_pass L room layout (item # items) i furniture_polys penalty =
     (if i < length layout then
        (case layout ! i of (x, y, rot) \<Rightarrow>
         let poly = create_furniture_polygon_wrapper L item x y rot in
         case check_boundary L room poly of
           Inl e \<Rightarrow> Inl e
         | Inr inside \<Rightarrow>
             boundary_pass L room layout items (Suc i) (furniture_polys @ [poly])
               (if \<not> inside then penalty + 1000 else penalty))
      else Inl IndexError)"

text \<open>The nested loops over \<^verbatim>\<open>range(n)\<close> and \<^verbatim>\<open>range(i + 1, n)\<close>.\<close>

fun overlap_row :: "shapely \<Rightarrow> polygon list \<Rightarrow> nat \<Rightarrow> nat list \<Rightarrow> real \<Rightarrow> error + real" where
  "overlap_row L furniture_polys i [] penalty = Inr penalty"
| "overlap_row L furniture_polys i (j # js) penalty =
     (case calculate_overlap_area L (furniture_polys ! i) (furniture_polys ! j) of
        Inl e \<Rightarrow> Inl e
      | Inr overlap \<Rightarrow>
          overlap_row L furniture_polys i js
            (if overlap > 0 then penalty + overlap * 500 else penalty))"

fun overlap_pass :: "shapely \<Rightarrow> polygon list \<Rightarrow> nat list \<Rightarrow> real \<Rightarrow> error + real" where
  "overlap_pass L furniture_polys [] penalty = Inr penalty"
| "overlap_pass L furniture_polys (i # is) penalty =
     (case overlap_row L furniture_polys i [Suc i..<length furniture_polys] penalty of
        Inl e \<Rightarrow> Inl e
      | Inr penalty' \<Rightarrow> overlap_pass L furniture_polys is penalty')"

fun alignment_pass :: "shapely \<Rightarrow> polygon \<Rightarrow> polygon list \<Rightarrow> real \<Rightarrow> error + real" where
  "alignment_pass L room [] alignment_score = Inr alignment_score"
| "alignment_pass L room (poly # polys) alignment_score =
     (case get_nearest_wall_distance L room poly of
        Inl e \<Rightarrow> Inl e
      | Inr wall_dist \<Rightarrow>
          alignment_pass L room polys
            (if wall_dist < 0.1 then alignment_score + 10 else alignment_score))"

definition calculate_fitness ::
  "shapely \<Rightarrow> polygon \<Rightarrow> furniture_item list \<Rightarrow> layout \<Rightarrow> error + real"
where
  "calculate_fitness L room items layout =
     (case boundary_pass L room layout items 0 [] 0 of
        Inl e \<Rightarrow> Inl e
      | Inr (furniture_polys, penalty) \<Rightarrow>
          (case overlap_pass L furniture_polys [0..<length furniture_polys] penalty of
             Inl e \<Rightarrow> Inl e
           | Inr penalty' \<Rightarrow>
               if penalty' > 0 then Inr (- penalty')
               else (case alignment_pass L room furniture_polys 0 of
                       Inl e \<Rightarrow> Inl e
                     | Inr alignment_score \<Rightarrow> Inr (0 + alignment_score))))"

subsection \<open>Binary64 arithmetic\<close>

text \<open>
  A Python float is an IEEE binary64 number. A finite one is a real of the form
  \<open>m * 2 ^ e\<close> with an integer \<open>m\<close>, \<open>\<bar>m\<bar> < 2 ^ 53\<close>; an arithmetic operation returns the exact
  result rounded to the nearest such number, ties to the even significand.
  \<open>binade x\<close> is the exponent of the power of two at or below \<open>\<bar>x\<bar>\<close>, so \<open>pow2 (binade x - 52)\<close>
  is the spacing of the floats around \<open>x\<close>. The exponent is not bounded here: infinities,
  NaN and subnormal numbers are outside the model, and a float is a real \<open>x\<close> with
  \<open>double_round x = x\<close>.
\<close>

definition pow2 :: "int \<Rightarrow> real" where
  "pow2 k = (if 0 \<le> k then 2 ^ nat k else 1 / 2 ^ nat (- k))"

definition binade :: "real \<Rightarrow> int" where
  "binade x = \<lfloor>log 2 \<bar>x\<bar>\<rfloor>"

definition round_half_even :: "real \<Rightarrow> int" where
  "round_half_even x =
     (let f = \<lfloor>x\<rfloor> in
      if x - of_int f < 1 / 2 then f
      else if x - of_int f > 1 / 2 then f + 1
      else if even f then f else f + 1)"

definition round_positive :: "real \<Rightarrow> real" where
  "round_positive x =
     (let u = pow2 (binade x - 52) in of_int (round_half_even (x / u)) * u)"

definition double_round :: "real \<Rightarrow> real" where
  "double_round x =
     (if x = 0 then 0 else if x > 0 then round_positive x else - round_positive (- x))"

text \<open>
  The operators \<^verbatim>\<open>+\<close>, \<^verbatim>\<open>*\<close> and \<^verbatim>\<open>/\<close> on floats, the conversion of a Python int that
  \<^verbatim>\<open>float / int\<close> performs, and the value of a decimal literal such as \<^verbatim>\<open>0.1\<close>.
\<close>

definition float_add :: "real \<Rightarrow> real \<Rightarrow> real" where
  "float_add x y = double_round (x + y)"

definition float_mul :: "real \<Rightarrow> real \<Rightarrow> real" where
  "float_mul x y = double_round (x * y)"

definition float_div :: "real \<Rightarrow> real \<Rightarrow> real" where
  "float_div x y = double_round (x / y)"

definition float_of_int :: "int \<Rightarrow> real" where
  "float_of_int k = double_round (real_of_int k)"

definition float_literal :: "real \<Rightarrow> real" where
  "float_literal q = double_round q"

subsection \<open>The display score\<close>

text \<open>
  \<^verbatim>\<open>calculate_normalized_score\<close>, lines 68 to 83. The literals \<^verbatim>\<open>0.0\<close>, \<^verbatim>\<open>50.0\<close> and
  \<^verbatim>\<open>100.0\<close> are floats as they stand; \<^verbatim>\<open>0.1\<close> is not and is rounded. \<^verbatim>\<open>max_score\<close> is a
  Python int, converted when \<^verbatim>\<open>raw_fitness\<close> is divided by it; the test
  \<^verbatim>\<open>max_score == 0\<close> comes before the division, so the division never raises.
  On a finite \<^verbatim>\<open>raw_fitness\<close> the unbounded exponent changes no result of this function:
  a product or quotient small enough to underflow vanishes when it is added to \<^verbatim>\<open>50.0\<close>,
  and a product large enough to overflow is cut to \<^verbatim>\<open>100.0\<close> by \<^verbatim>\<open>min\<close>.
\<close>

definition calculate_normalized_score :: "furniture_item list \<Rightarrow> real \<Rightarrow> real" where
  "calculate_normalized_score items raw_fitness =
     (if raw_fitness < 0 then
        max 0 (float_add 50 (float_mul raw_fitness (float_literal (1 / 10))))
      else
        let max_score = int (length items) * 10 in
        if max_score = 0 then 50
        else
          let percentage =
                float_add 50 (float_mul (float_div raw_fitness (float_of_int max_score)) 50)
          in min 100 percentage)"

section \<open>\<^verbatim>\<open>optimizer.py\<close>: the class \<^verbatim>\<open>GeneticOptimizer\<close>\<close>

text \<open>
  The approximator is a function from the feature vector to the network's scalar output.
  What \<^verbatim>\<open>__init__\<close> sees of the file system and of torch is collected in a record:
  whether \<^verbatim>\<open>best_model.pth\<close> exists, the freshly constructed
  \<^verbatim>\<open>InteriorFitnessModel(input_size=7)\<close>, and the outcome of
  \<^verbatim>\<open>load_state_dict(torch.load(...))\<close> followed by \<^verbatim>\<open>eval()\<close> on it.
\<close>

type_synonym ml_model = "real list \<Rightarrow> real"

record torch_env =
  path_exists :: bool
  new_model :: ml_model
  load_state_dict :: "ml_model \<Rightarrow> error + ml_model"

text \<open>
  Lines 28 to 42 of \<^verbatim>\<open>__init__\<close>: \<^verbatim>\<open>self.ml_model\<close> starts as \<^verbatim>\<open>None\<close>, is assigned the
  fresh network when the file exists, and only then is the state loaded inside the same
  \<^verbatim>\<open>try\<close>; the handler prints and changes nothing.
\<close>

definition load_ml_model :: "torch_env \<Rightarrow> ml_model option" where
  "load_ml_model env =
     (let ml = None in
      if path_exists env then
        (let ml = Some (new_model env) in
         case load_state_dict env (new_model env) of
           Inl e \<Rightarrow> ml
         | Inr loaded \<Rightarrow> Some loaded)
      else ml)"

record optimizer =
  geom :: shapely
  room_poly :: polygon
  furniture_items :: "furniture_item list"
  pop_size :: nat
  generations :: nat
  room_bounds :: "real \<times> real \<times> real \<times> real"
  ml_model :: "ml_model option"

text \<open>
  The sizes are natural numbers: a negative \<^verbatim>\<open>population_size\<close> or \<^verbatim>\<open>generations\<close>
  behaves like \<open>0\<close> in \<^verbatim>\<open>range\<close>, in the loop test and in the final slice.
\<close>

definition GeneticOptimizer_init ::
  "shapely \<Rightarrow> torch_env \<Rightarrow> polygon \<Rightarrow> furniture_item list \<Rightarrow> nat \<Rightarrow> nat \<Rightarrow> optimizer"
where
  "GeneticOptimizer_init L env room items population_size gens =
     \<lparr>geom = L, room_poly = room, furniture_items = items, pop_size = population_size,
      generations = gens, room_bounds = shp_bounds L room, ml_model = load_ml_model env\<rparr>"

text \<open>\<^verbatim>\<open>_get_ml_score\<close>; \<^verbatim>\<open>sum(xs) / len(xs)\<close> divides by zero on an empty individual.\<close>

definition ml_features :: "optimizer \<Rightarrow> layout \<Rightarrow> error + real list" where
  "ml_features self individual =
     (let room_area = shp_area (geom self) (room_poly self) / 50;
          aspect_ratio = 1;
          num_doors = 0.25;
          num_windows = 0.25;
          num_furniture = real (length (furniture_items self)) / 20;
          xs = map (\<lambda>item. fst item) individual;
          ys = map (\<lambda>item. fst (snd item)) individual
      in if length xs = 0 then Inl ZeroDivisionError
         else
           (let avg_x = sum_list xs / real (length xs);
                avg_y = sum_list ys / real (length ys)
            in case room_bounds self of (min_x, min_y, max_x, max_y) \<Rightarrow>
                 let w = max_x - min_x;
                     h = max_y - min_y;
                     norm_avg_x = (if w > 0 then avg_x / w else 0);
                     norm_avg_y = (if h > 0 then avg_y / h else 0)
                 in Inr [room_area, aspect_ratio, num_doors, num_windows, num_furniture,
                         norm_avg_x, norm_avg_y]))"

definition get_ml_score :: "optimizer \<Rightarrow> layout \<Rightarrow> error + real" where
  "get_ml_score self individual =
     (case ml_model self of
        None \<Rightarrow> Inr 0
      | Some model \<Rightarrow>
          (case ml_features self individual of
             Inl e \<Rightarrow> Inl e
           | Inr features \<Rightarrow> Inr (model features * 100)))"

text \<open>The body of the evaluation loop of \<^verbatim>\<open>optimize\<close> (lines 122 to 131).\<close>

definition final_score :: "optimizer \<Rightarrow> layout \<Rightarrow> error + real" where
  "final_score self ind =
     (case calculate_fitness (geom self) (room_poly self) (furniture_items self) ind of
        Inl e \<Rightarrow> Inl e
      | Inr geo_score \<Rightarrow>
          (case ml_model self of
             Some model \<Rightarrow>
               (case get_ml_score self ind of
                  Inl e \<Rightarrow> Inl e
                | Inr ml_score \<Rightarrow> Inr (geo_score * 0.7 + ml_score * 0.3))
           | None \<Rightarrow> Inr geo_score))"

fun evaluate_population :: "optimizer \<Rightarrow> layout list \<Rightarrow> error + real list" where
  "evaluate_population self [] = Inr []"
| "evaluate_population self (ind # population) =
     (case final_score self ind of
        Inl e \<Rightarrow> Inl e
      | Inr s \<Rightarrow>
          (case evaluate_population self population of
             Inl e \<Rightarrow> Inl e
           | Inr fitness_scores \<Rightarrow> Inr (s # fitness_scores)))"

text \<open>Python's \<^verbatim>\<open>max\<close> on a list and \<^verbatim>\<open>list.index\<close>; both raise \<^verbatim>\<open>ValueError\<close>.\<close>

fun py_max :: "real list \<Rightarrow> error + real" where
  "py_max [] = Inl ValueError"
| "py_max (x # xs) = Inr (fold max xs x)"

fun py_index :: "real list \<Rightarrow> real \<Rightarrow> error + nat" where
  "py_index [] v = Inl ValueError"
| "py_index (x # xs) v =
     (if x = v then Inr 0
      else (case py_index xs v of Inl e \<Rightarrow> Inl e | Inr k \<Rightarrow> Inr (Suc k)))"

text \<open>
  The best pair; \<^verbatim>\<open>best_fitness\<close> starts as \<^verbatim>\<open>float('-inf')\<close>, written \<open>None\<close>, and
  \<^verbatim>\<open>best_solution\<close> as \<^verbatim>\<open>None\<close>.
\<close>

type_synonym best = "layout option \<times> real option"

definition track_best :: "layout list \<Rightarrow> real list \<Rightarrow> best \<Rightarrow> error + best" where
  "track_best population fitness_scores b =
     (case py_max fitness_scores of
        Inl e \<Rightarrow> Inl e
      | Inr max_fitness \<Rightarrow>
          if (case snd b of None \<Rightarrow> True | Some best_fitness \<Rightarrow> max_fitness > best_fitness) then
            (case py_index fitness_scores max_fitness of
               Inl e \<Rightarrow> Inl e
             | Inr k \<Rightarrow>
                 if k < length population then Inr (Some (population ! k), Some max_fitness)
                 else Inl IndexError)
          else Inr b)"

text \<open>
  The \<^verbatim>\<open>while\<close> loop building the new population (lines 141 to 153): two parents at
  random indices, crossover, mutation of both children, both appended.
\<close>

function breed ::
  "optimizer \<Rightarrow> layout list \<Rightarrow> layout list \<Rightarrow> rng \<Rightarrow> error + (layout list \<times> rng)"
where
  "breed self population new_population g =
     (if length new_population < pop_size self then
        (case random_randint 0 (int (pop_size self) - 1) g of
           Inl e \<Rightarrow> Inl e
         | Inr (i1, g1) \<Rightarrow>
        if \<not> nat i1 < length population then Inl IndexError else
        (case random_randint 0 (int (pop_size self) - 1) g1 of
           Inl e \<Rightarrow> Inl e
         | Inr (i2, g2) \<Rightarrow>
        if \<not> nat i2 < length population then Inl IndexError else
        (case crossover (furniture_items self) (population ! nat i1) (population ! nat i2) g2 of
           Inl e \<Rightarrow> Inl e
         | Inr ((c1, c2), g3) \<Rightarrow>
        (case mutate c1 0.1 g3 of
           Inl e \<Rightarrow> Inl e
         | Inr (c1', g4) \<Rightarrow>
        (case mutate c2 0.1 g4 of
           Inl e \<Rightarrow> Inl e
         | Inr (c2', g5) \<Rightarrow>
             breed self population (new_population @ [c1', c2']) g5)))))
      else Inr (new_population, g))"
  by pat_completeness auto
termination
  by (relation "measure (\<lambda>(self, population, new_population, g). pop_size self - length new_population)")
     auto

declare breed.simps [simp del]

text \<open>One pass of the generation loop: evaluation, best tracking, replacement.\<close>

definition generation ::
  "optimizer \<Rightarrow> layout list \<Rightarrow> best \<Rightarrow> rng \<Rightarrow> error + (layout list \<times> best \<times> rng)"
where
  "generation self population b g =
     (case evaluate_population self population of
        Inl e \<Rightarrow> Inl e
      | Inr fitness_scores \<Rightarrow>
          (case track_best population fitness_scores b of
             Inl e \<Rightarrow> Inl e
           | Inr b' \<Rightarrow>
               (case breed self population [] g of
                  Inl e \<Rightarrow> Inl e
                | Inr (new_population, g') \<Rightarrow>
                    Inr (take (pop_size self) new_population, b', g'))))"

fun run_generations ::
  "optimizer \<Rightarrow> nat \<Rightarrow> layout list \<Rightarrow> best \<Rightarrow> rng \<Rightarrow> error + (layout list \<times> best \<times> rng)"
where
  "run_generations self 0 population b g = Inr (population, b, g)"
| "run_generations self (Suc k) population b g =
     (case generation self population b g of
        Inl e \<Rightarrow> Inl e
      | Inr (population', b', g') \<Rightarrow> run_generations self k population' b' g')"

fun init_population :: "optimizer \<Rightarrow> nat \<Rightarrow> rng \<Rightarrow> error + (layout list \<times> rng)" where
  "init_population self 0 g = Inr ([], g)"
| "init_population self (Suc k) g =
     (case create_individual (room_bounds self) (furniture_items self) g of
        Inl e \<Rightarrow> Inl e
      | Inr (ind, g1) \<Rightarrow>
          (case init_population self k g1 of
             Inl e \<Rightarrow> Inl e
           | Inr (rest, g2) \<Rightarrow> Inr (ind # rest, g2)))"

definition optimize :: "optimizer \<Rightarrow> rng \<Rightarrow> error + (best \<times> rng)" where
  "optimize self g =
     (case init_population self (pop_size self) g of
        Inl e \<Rightarrow> Inl e
      | Inr (population, g1) \<Rightarrow>
          (case run_generations self (generations self) population (None, None) g1 of
             Inl e \<Rightarrow> Inl e
           | Inr (population', b, g2) \<Rightarrow> Inr (b, g2)))"

section \<open>Auxiliary notions for stating the properties\<close>

text \<open>A generator that produces the given raw numbers and then zeros.\<close>

definition rng_of :: "nat list \<Rightarrow> rng" where
  "rng_of ks = (\<lambda>i. if i < length ks then ks ! i else 0)"

text \<open>The value a call returns, without the generator state.\<close>

definition outcome :: "error + ('a \<times> rng) \<Rightarrow> error + 'a" where
  "outcome r = (case r of Inl e \<Rightarrow> Inl e | Inr (v, g) \<Rightarrow> Inr v)"

text \<open>
  The candidate invariant: one placement per furniture item, and rotation \<open>0\<close> for every
  item whose \<^verbatim>\<open>rotatable\<close> is \<^verbatim>\<open>False\<close>.
\<close>

definition rot_ok :: "furniture_item \<Rightarrow> placement \<Rightarrow> bool" where
  "rot_ok item p = (case p of (x, y, rot) \<Rightarrow> if rotatable item = Some False then rot = 0 else True)"

definition candidate_invariant :: "furniture_item list \<Rightarrow> layout \<Rightarrow> bool" where
  "candidate_invariant items candidate =
     (length candidate = length items \<and> list_all2 rot_ok items candidate)"

definition wardrobe :: furniture_item where
  "wardrobe = \<lparr>item_id = ''wardrobe'', width = 1.5, depth = 0.6, rotatable = Some False\<rparr>"

definition chair :: furniture_item where
  "chair = \<lparr>item_id = ''chair'', width = 0.5, depth = 0.5, rotatable = Some True\<rparr>"

text \<open>
  An artifact that exists on disk but cannot be loaded: \<^verbatim>\<open>os.path.exists\<close> is true and
  loading the state raises.
\<close>

definition corrupt_artifact :: "ml_model \<Rightarrow> torch_env" where
  "corrupt_artifact untrained =
     \<lparr>path_exists = True, new_model = untrained, load_state_dict = (\<lambda>m. Inl RuntimeError)\<rparr>"

subsection \<open>The fitness as the specification words it\<close>

text \<open>
  The footprints of a layout, one per furniture item, and the score written as sums over
  footprints and over unordered pairs of footprints. \<open>inside\<close>, \<open>ov\<close> and \<open>wdist\<close> are the
  values of the containment test, the overlap area and the centroid-to-boundary distance.
\<close>

definition footprints :: "shapely \<Rightarrow> furniture_item list \<Rightarrow> layout \<Rightarrow> polygon list" where
  "footprints L items layout =
     map (\<lambda>(item, x, y, rot). create_furniture_polygon_wrapper L item x y rot) (zip items layout)"

text \<open>The footprint of one item at its placement.\<close>

definition fp :: "shapely \<Rightarrow> furniture_item \<times> placement \<Rightarrow> polygon" where
  "fp L = (\<lambda>(item, x, y, rot). create_furniture_polygon_wrapper L item x y rot)"

definition unordered_pairs :: "nat \<Rightarrow> (nat \<times> nat) list" where
  "unordered_pairs n = concat (map (\<lambda>i. map (\<lambda>j. (i, j)) [Suc i..<n]) [0..<n])"

definition spec_penalty ::
  "(polygon \<Rightarrow> bool) \<Rightarrow> (polygon \<Rightarrow> polygon \<Rightarrow> real) \<Rightarrow> polygon list \<Rightarrow> real"
where
  "spec_penalty inside ov polys =
     1000 * real (length (filter (\<lambda>p. \<not> inside p) polys)) +
     sum_list (map (\<lambda>(i, j). ov (polys ! i) (polys ! j) * 500)
                 (filter (\<lambda>(i, j). ov (polys ! i) (polys ! j) > 0)
                    (unordered_pairs (length polys))))"

definition spec_alignment :: "(polygon \<Rightarrow> real) \<Rightarrow> polygon list \<Rightarrow> real" where
  "spec_alignment wdist polys = 10 * real (length (filter (\<lambda>p. wdist p < 0.1) polys))"

definition spec_fitness ::
  "(polygon \<Rightarrow> bool) \<Rightarrow> (polygon \<Rightarrow> polygon \<Rightarrow> real) \<Rightarrow> (polygon \<Rightarrow> real) \<Rightarrow> polygon list
   \<Rightarrow> real"
where
  "spec_fitness inside ov wdist polys =
     (if spec_penalty inside ov polys > 0 then - spec_penalty inside ov polys
      else spec_alignment wdist polys)"

subsection \<open>A geometry for axis-aligned rectangles\<close>

text \<open>
  To run the code on concrete layouts, the Shapely operations are instantiated for
  axis-aligned rectangles: every polygon is taken as its bounding box, which is exact for
  the footprints of items rotated by multiples of ninety degrees and for rectangular
  rooms. Rotation is about the origin, counter-clockwise.
\<close>

definition coords_min :: "real list \<Rightarrow> real" where
  "coords_min cs = (case cs of [] \<Rightarrow> 0 | c # rest \<Rightarrow> fold min rest c)"

definition coords_max :: "real list \<Rightarrow> real" where
  "coords_max cs = (case cs of [] \<Rightarrow> 0 | c # rest \<Rightarrow> fold max rest c)"

definition rect_bounds :: "polygon \<Rightarrow> real \<times> real \<times> real \<times> real" where
  "rect_bounds p =
     (coords_min (map fst p), coords_min (map snd p), coords_max (map fst p), coords_max (map snd p))"

definition rect_area :: "polygon \<Rightarrow> real" where
  "rect_area p = (case rect_bounds p of (x0, y0, x1, y1) \<Rightarrow> (x1 - x0) * (y1 - y0))"

definition rect_contains :: "polygon \<Rightarrow> polygon \<Rightarrow> bool" where
  "rect_contains a b =
     (case rect_bounds a of (ax0, ay0, ax1, ay1) \<Rightarrow>
      case rect_bounds b of (bx0, by0, bx1, by1) \<Rightarrow>
        ax0 \<le> bx0 \<and> ay0 \<le> by0 \<and> bx1 \<le> ax1 \<and> by1 \<le> ay1)"

definition rect_intersects :: "polygon \<Rightarrow> polygon \<Rightarrow> bool" where
  "rect_intersects a b =
     (case rect_bounds a of (ax0, ay0, ax1, ay1) \<Rightarrow>
      case rect_bounds b of (bx0, by0, bx1, by1) \<Rightarrow>
        max ax0 bx0 \<le> min ax1 bx1 \<and> max ay0 by0 \<le> min ay1 by1)"

definition rect_intersection_area :: "polygon \<Rightarrow> polygon \<Rightarrow> real" where
  "rect_intersection_area a b =
     (case rect_bounds a of (ax0, ay0, ax1, ay1) \<Rightarrow>
      case rect_bounds b of (bx0, by0, bx1, by1) \<Rightarrow>
        max 0 (min ax1 bx1 - max ax0 bx0) * max 0 (min ay1 by1 - max ay0 by0))"

definition rect_centroid :: "polygon \<Rightarrow> point" where
  "rect_centroid p = (case rect_bounds p of (x0, y0, x1, y1) \<Rightarrow> ((x0 + x1) / 2, (y0 + y1) / 2))"

definition rect_boundary_distance :: "polygon \<Rightarrow> point \<Rightarrow> real" where
  "rect_boundary_distance room pt =
     (case rect_bounds room of (x0, y0, x1, y1) \<Rightarrow>
      case pt of (px, py) \<Rightarrow>
        if x0 \<le> px \<and> px \<le> x1 \<and> y0 \<le> py \<and> py \<le> y1
        then min (min (px - x0) (x1 - px)) (min (py - y0) (y1 - py))
        else sqrt ((max 0 (max (x0 - px) (px - x1)))\<^sup>2 + (max 0 (max (y0 - py) (py - y1)))\<^sup>2))"

definition rect_rotate :: "polygon \<Rightarrow> int \<Rightarrow> polygon" where
  "rect_rotate p angle =
     (if angle mod 360 = 90 then map (\<lambda>(x, y). (- y, x)) p
      else if angle mod 360 = 180 then map (\<lambda>(x, y). (- x, - y)) p
      else if angle mod 360 = 270 then map (\<lambda>(x, y). (y, - x)) p
      else p)"

definition rect_translate :: "polygon \<Rightarrow> real \<Rightarrow> real \<Rightarrow> polygon" where
  "rect_translate p dx dy = map (\<lambda>(x, y). (x + dx, y + dy)) p"

definition rect_shapely :: shapely where
  "rect_shapely =
     \<lparr>shp_contains = (\<lambda>a b. Inr (rect_contains a b)),
      shp_intersects = (\<lambda>a b. Inr (rect_intersects a b)),
      shp_intersection_area = (\<lambda>a b. Inr (rect_intersection_area a b)),
      shp_area = rect_area,
      shp_bounds = rect_bounds,
      shp_centroid = rect_centroid,
      shp_boundary_distance = (\<lambda>room pt. Inr (rect_boundary_distance room pt)),
      shp_rotate = rect_rotate,
      shp_translate = rect_translate\<rparr>"



definition square_room :: polygon where
  "square_room = [(0, 0), (4, 0), (4, 4), (0, 4)]"

definition sofa :: furniture_item where
  "sofa = \<lparr>item_id = ''sofa'', width = 2, depth = 2, rotatable = Some True\<rparr>"

definition stool :: furniture_item where
  "stool = \<lparr>item_id = ''stool'', width = 1, depth = 1, rotatable = Some False\<rparr>"

text \<open>The values of the three geometric queries in the rectangle geometry.\<close>

definition rect_inside :: "polygon \<Rightarrow> polygon \<Rightarrow> bool" where
  "rect_inside room p = rect_contains room p"

definition rect_overlap :: "polygon \<Rightarrow> polygon \<Rightarrow> real" where
  "rect_overlap a b = (if rect_intersects a b then rect_intersection_area a b else 0)"

definition rect_wall_distance :: "polygon \<Rightarrow> polygon \<Rightarrow> real" where
  "rect_wall_distance room p = rect_boundary_distance room (rect_centroid p)"

subsection \<open>The features the approximator was trained on\<close>

text \<open>
  \<^verbatim>\<open>preprocess_data.py\<close> computes the aspect ratio of a room from its bounding box:
  \<^verbatim>\<open>bounds["width"] / bounds["height"] if bounds["height"] > 0 else 1.0\<close>.
\<close>

definition room_aspect_ratio :: "real \<times> real \<times> real \<times> real \<Rightarrow> real" where
  "room_aspect_ratio bnds =
     (case bnds of (min_x, min_y, max_x, max_y) \<Rightarrow>
        if max_y - min_y > 0 then (max_x - min_x) / (max_y - min_y) else 1)"

text \<open>
  An artifact that loads, a model that returns the second entry of its feature vector, and
  an optimizer for one stool in a room of eight by two metres.
\<close>

definition loadable_artifact :: "ml_model \<Rightarrow> torch_env" where
  "loadable_artifact trained =
     \<lparr>path_exists = True, new_model = (\<lambda>features. 0), load_state_dict = (\<lambda>m. Inr trained)\<rparr>"

definition probe_model :: ml_model where
  "probe_model features = features ! 1"

definition wide_room :: polygon where
  "wide_room = [(0, 0), (8, 0), (8, 2), (0, 2)]"

definition wide_optimizer :: optimizer where
  "wide_optimizer =
     GeneticOptimizer_init rect_shapely (loadable_artifact probe_model) wide_room [stool] 2 1"

subsection \<open>Children of a population\<close>


text \<open>No artifact on disk, and an optimizer for two stools in the square room.\<close>

definition missing_artifact :: torch_env where
  "missing_artifact =
     \<lparr>path_exists = False, new_model = (\<lambda>features. 0), load_state_dict = (\<lambda>m. Inr m)\<rparr>"


text \<open>An optimizer for a single stool in the square room.\<close>

definition single_optimizer :: optimizer where
  "single_optimizer =
     GeneticOptimizer_init rect_shapely missing_artifact square_room [stool] 2 1"




section \<open>Properties of the genetic operators\<close>

lemma rng_tail_rng_of [simp]: "rng_tail (rng_of (k # ks)) = rng_of ks"
  by (auto simp: rng_tail_def rng_of_def fun_eq_iff)

lemma rng_of_0 [simp]: "rng_of (k # ks) 0 = k" "rng_of [] 0 = 0"
  by (simp_all add: rng_of_def)

lemma randint_returns:
  assumes "a \<le> b"
  shows "random_randint a b g = Inr (a + int (g 0 mod nat (b - a + 1)), rng_tail g)"
    and "a + int (g 0 mod nat (b - a + 1)) \<le> b"
proof -
  show "random_randint a b g = Inr (a + int (g 0 mod nat (b - a + 1)), rng_tail g)"
    using assms by (simp add: random_randint_def)
  have "g 0 mod nat (b - a + 1) < nat (b - a + 1)"
    using assms by simp
  then show "a + int (g 0 mod nat (b - a + 1)) \<le> b"
    using assms by linarith
qed

subsection \<open>Initial candidates\<close>




subsection \<open>Mutation\<close>




text \<open>
  Claim C1. Every candidate produced by initialisation, crossover and mutation has one
  placement per furniture item and rotation \<open>0\<close> for every item that is not rotatable.
  Initialisation and crossover keep this (\<open>create_individual_invariant\<close> above,
  \<open>crossover_invariant\<close> below), and mutation keeps the length (\<open>mutate_returns\<close>), but
  mutation resamples the rotation of any gene: for the single non-rotatable wardrobe placed
  at \<open>(1, 1)\<close> with rotation \<open>0\<close>, the generator output below makes \<^verbatim>\<open>mutate\<close> return the
  wardrobe rotated by \<open>90\<close>.
\<close>

theorem mutate_rotates_pinned_item:
  "candidate_invariant [wardrobe] [(1, 1, 0)] \<and>
   outcome (mutate [(1, 1, 0)] 0.1 (rng_of [0, 2 ^ 52, 2 ^ 52, 0, 1])) = Inr [(1, 1, 90)] \<and>
   \<not> candidate_invariant [wardrobe] [(1, 1, 90)]"
  by (simp add: candidate_invariant_def rot_ok_def wardrobe_def mutate_def outcome_def
      random_random_def random_uniform_def random_choice_def)

subsection \<open>Crossover\<close>

lemma crossover_invariant:
  assumes "candidate_invariant items parent1" "candidate_invariant items parent2"
    and "crossover items parent1 parent2 g = Inr ((child1, child2), g')"
  shows "candidate_invariant items child1 \<and> candidate_invariant items child2"
proof -
  from assms(3) obtain point where
    c1: "child1 = take point parent1 @ drop point parent2" and
    c2: "child2 = take point parent2 @ drop point parent1"
    by (auto simp: crossover_def split: sum.splits)
  have a1: "list_all2 rot_ok items parent1" and a2: "list_all2 rot_ok items parent2"
    using assms(1,2) by (simp_all add: candidate_invariant_def)
  have "list_all2 rot_ok (take point items @ drop point items)
          (take point parent1 @ drop point parent2)"
    by (intro list_all2_appendI list_all2_takeI list_all2_dropI a1 a2)
  moreover
  have "list_all2 rot_ok (take point items @ drop point items)
          (take point parent2 @ drop point parent1)"
    by (intro list_all2_appendI list_all2_takeI list_all2_dropI a1 a2)
  ultimately show ?thesis
    using c1 c2 by (auto simp: candidate_invariant_def dest: list_all2_lengthD)
qed

lemma crossover_cut:
  assumes n: "2 \<le> length items"
  shows "crossover items parent1 parent2 g =
           Inr ((take (1 + g 0 mod (length items - 1)) parent1 @
                 drop (1 + g 0 mod (length items - 1)) parent2,
                 take (1 + g 0 mod (length items - 1)) parent2 @
                 drop (1 + g 0 mod (length items - 1)) parent1), rng_tail g)"
proof -
  let ?n = "length items"
  let ?p = "1 + g 0 mod (?n - 1)"
  have le: "(1::int) \<le> int ?n - 1" using n by simp
  have natn: "nat (int ?n - 1) = ?n - 1" using n by simp
  have r: "random_randint 1 (int ?n - 1) g = Inr (int ?p, rng_tail g)"
    using randint_returns(1) [OF le, of g] by (simp add: natn)
  show ?thesis
    by (simp add: crossover_def r del: of_nat_add of_nat_Suc)
qed

text \<open>
  Claim C6. For parents of equal length \<open>n \<ge> 2\<close> (the number of furniture items),
  crossover cuts at an index in \<open>[1, n - 1]\<close>, namely \<open>1 + k mod (n - 1)\<close> for the raw number
  \<open>k\<close> drawn, so every index of the range is hit by one residue class; child A is
  parent 1 before the cut followed by parent 2 from the cut on, child B the complement,
  and both have length \<open>n\<close>. With parents \<open>[a, b, c, d]\<close> and \<open>[w, x, y, z]\<close> and cut \<open>2\<close>
  the children are \<open>[a, b, y, z]\<close> and \<open>[w, x, c, d]\<close>.
\<close>

theorem crossover_single_point:
  assumes n: "2 \<le> length items"
    and l1: "length parent1 = length items"
    and l2: "length parent2 = length items"
  shows "(\<exists>point child1 child2.
            point = 1 + g 0 mod (length items - 1) \<and> 1 \<le> point \<and> point \<le> length items - 1 \<and>
            crossover items parent1 parent2 g = Inr ((child1, child2), rng_tail g) \<and>
            child1 = take point parent1 @ drop point parent2 \<and>
            child2 = take point parent2 @ drop point parent1 \<and>
            length child1 = length items \<and> length child2 = length items) \<and>
         (\<forall>a b c d w x y z.
            parent1 = [a, b, c, d] \<and> parent2 = [w, x, y, z] \<and> g 0 mod 3 = 1 \<longrightarrow>
            crossover items parent1 parent2 g = Inr (([a, b, y, z], [w, x, c, d]), rng_tail g))"
proof -
  let ?n = "length items"
  let ?p = "1 + g 0 mod (?n - 1)"
  have lt: "g 0 mod (?n - 1) < ?n - 1" using n by simp
  have pl: "1 \<le> ?p" and pu: "?p \<le> ?n - 1" using lt by simp_all
  have c: "crossover items parent1 parent2 g =
      Inr ((take ?p parent1 @ drop ?p parent2, take ?p parent2 @ drop ?p parent1), rng_tail g)"
    by (rule crossover_cut [OF n])
  have len1: "length (take ?p parent1 @ drop ?p parent2) = ?n"
    using l1 l2 pu by simp
  have len2: "length (take ?p parent2 @ drop ?p parent1) = ?n"
    using l1 l2 pu by simp
  have general: "\<exists>point child1 child2.
            point = 1 + g 0 mod (length items - 1) \<and> 1 \<le> point \<and> point \<le> length items - 1 \<and>
            crossover items parent1 parent2 g = Inr ((child1, child2), rng_tail g) \<and>
            child1 = take point parent1 @ drop point parent2 \<and>
            child2 = take point parent2 @ drop point parent1 \<and>
            length child1 = length items \<and> length child2 = length items"
    using c len1 len2 pl pu by blast
  have example: "crossover items parent1 parent2 g = Inr (([a, b, y, z], [w, x, c, d]), rng_tail g)"
    if "parent1 = [a, b, c, d]" "parent2 = [w, x, y, z]" "g 0 mod 3 = 1" for a b c d w x y z
  proof -
    have "?n = 4" using that l1 by simp
    then have "?p = 2" using that by simp
    with c that show ?thesis by simp
  qed
  from general example show ?thesis by blast
qed

theorem crossover_single_point_witness:
  "2 \<le> length [chair, chair, wardrobe, chair] \<and>
   length [(1, 1, 0), (2, 2, 90), (3, 3, 0), (4, 4, 180 :: int)] =
     length [chair, chair, wardrobe, chair] \<and>
   length [(5, 5, 0), (6, 6, 0), (7, 7, 0), (8, 8, 270 :: int)] =
     length [chair, chair, wardrobe, chair] \<and>
   rng_of [7] 0 mod 3 = 1 \<and>
   crossover [chair, chair, wardrobe, chair]
     [(1, 1, 0), (2, 2, 90), (3, 3, 0), (4, 4, 180)]
     [(5, 5, 0), (6, 6, 0), (7, 7, 0), (8, 8, 270)] (rng_of [7]) =
   Inr (([(1, 1, 0), (2, 2, 90), (7, 7, 0), (8, 8, 270)],
         [(5, 5, 0), (6, 6, 0), (3, 3, 0), (4, 4, 180)]), rng_of [])"
proof -
  have h1: "2 \<le> length [chair, chair, wardrobe, chair]" by simp
  have h2: "length [(1, 1, 0), (2, 2, 90), (3, 3, 0), (4, 4, 180 :: int)] =
            length [chair, chair, wardrobe, chair]" by simp
  have h3: "length [(5, 5, 0), (6, 6, 0), (7, 7, 0), (8, 8, 270 :: int)] =
            length [chair, chair, wardrobe, chair]" by simp
  have h4: "rng_of [7] 0 mod 3 = 1" by simp
  from crossover_single_point [OF h1 h2 h3, of "rng_of [7]"] h4
  have "crossover [chair, chair, wardrobe, chair]
     [(1, 1, 0), (2, 2, 90), (3, 3, 0), (4, 4, 180)]
     [(5, 5, 0), (6, 6, 0), (7, 7, 0), (8, 8, 270)] (rng_of [7]) =
   Inr (([(1, 1, 0), (2, 2, 90), (7, 7, 0), (8, 8, 270)],
         [(5, 5, 0), (6, 6, 0), (3, 3, 0), (4, 4, 180)]), rng_tail (rng_of [7]))"
    by blast
  with h1 h2 h3 h4 show ?thesis by simp
qed

section \<open>Normalisation and the hybrid score\<close>

subsection \<open>Rounding to binary64\<close>

text \<open>
  Rounding is monotone, keeps the sign, and is computed on a concrete number from the
  binade the number lies in (lemma \<open>round_positive_eval\<close>).
\<close>

lemma pow2_powr: "pow2 k = 2 powr (real_of_int k)"
  by (simp add: pow2_def powr_real_of_int inverse_eq_divide)

lemma pow2_pos [simp]: "0 < pow2 k"
  by (simp add: pow2_powr)

lemma pow2_nonneg [simp]: "0 \<le> pow2 k"
  by (rule less_imp_le) simp

lemma pow2_add: "pow2 (j + k) = pow2 j * pow2 k"
  by (simp add: pow2_powr powr_add)

lemma pow2_mono: "j \<le> k \<Longrightarrow> pow2 j \<le> pow2 k"
  by (simp add: pow2_powr)

lemma binade_bounds:
  assumes "x \<noteq> 0"
  shows "pow2 (binade x) \<le> \<bar>x\<bar>" and "\<bar>x\<bar> < pow2 (binade x + 1)"
proof -
  have pos: "0 < \<bar>x\<bar>" using assms by simp
  have "\<lfloor>log 2 \<bar>x\<bar>\<rfloor> = binade x" by (simp add: binade_def)
  then have "2 powr (real_of_int (binade x)) \<le> \<bar>x\<bar> \<and> \<bar>x\<bar> < 2 powr (real_of_int (binade x + 1))"
    using floor_log_eq_powr_iff [OF pos, of 2 "binade x"] by simp
  then show "pow2 (binade x) \<le> \<bar>x\<bar>" and "\<bar>x\<bar> < pow2 (binade x + 1)"
    by (simp_all add: pow2_powr)
qed

lemma binade_unique:
  assumes "pow2 k \<le> \<bar>x\<bar>" "\<bar>x\<bar> < pow2 (k + 1)"
  shows "binade x = k"
proof -
  have pos: "0 < \<bar>x\<bar>" using assms(1) pow2_pos [of k] by linarith
  have "2 powr (real_of_int k) \<le> \<bar>x\<bar> \<and> \<bar>x\<bar> < 2 powr (real_of_int (k + 1))"
    using assms by (simp add: pow2_powr)
  then show ?thesis
    using floor_log_eq_powr_iff [OF pos, of 2 k] by (simp add: binade_def)
qed

lemma round_half_even_near: "\<bar>real_of_int (round_half_even x) - x\<bar> \<le> 1 / 2"
proof -
  define f where "f = \<lfloor>x\<rfloor>"
  have lo: "real_of_int f \<le> x" and hi: "x < real_of_int f + 1"
    unfolding f_def by linarith+
  consider "x - of_int f < 1 / 2" | "x - of_int f > 1 / 2" | "x - of_int f = 1 / 2"
    by linarith
  then show ?thesis
  proof cases
    case 1
    then have "round_half_even x = f" by (simp add: round_half_even_def f_def Let_def)
    with 1 lo show ?thesis by simp
  next
    case 2
    then have "round_half_even x = f + 1" by (simp add: round_half_even_def f_def Let_def)
    with 2 hi show ?thesis by simp
  next
    case 3
    then have "round_half_even x = f \<or> round_half_even x = f + 1"
      by (simp add: round_half_even_def f_def Let_def)
    with 3 show ?thesis by auto
  qed
qed

lemma round_half_even_int [simp]: "round_half_even (of_int k) = k"
  by (simp add: round_half_even_def)

lemma round_half_even_mono:
  assumes "a \<le> b"
  shows "round_half_even a \<le> round_half_even b"
proof (rule ccontr)
  assume "\<not> round_half_even a \<le> round_half_even b"
  then have gt: "round_half_even b + 1 \<le> round_half_even a" by simp
  then have r: "real_of_int (round_half_even b) + 1 \<le> real_of_int (round_half_even a)"
    by linarith
  have na: "\<bar>real_of_int (round_half_even a) - a\<bar> \<le> 1 / 2"
    and nb: "\<bar>real_of_int (round_half_even b) - b\<bar> \<le> 1 / 2"
    by (rule round_half_even_near)+
  from r na nb assms have eq: "a = b" by linarith
  with gt show False by simp
qed

lemma round_positive_bounds:
  assumes "0 < x"
  shows "pow2 (binade x) \<le> round_positive x" and "round_positive x \<le> pow2 (binade x + 1)"
proof -
  define e where "e = binade x"
  define u where "u = pow2 (e - 52)"
  have u: "0 < u" by (simp add: u_def)
  have ne: "x \<noteq> 0" using assms by simp
  have lo: "pow2 e \<le> x" and hi: "x < pow2 (e + 1)"
    using binade_bounds [OF ne] assms by (simp_all add: e_def)
  have pe: "pow2 e = pow2 52 * u" and pe1: "pow2 (e + 1) = pow2 53 * u"
    using pow2_add [of 52 "e - 52"] pow2_add [of 53 "e - 52"]
    by (simp_all add: u_def add.commute)
  have i52: "pow2 52 = real_of_int (2 ^ 52)" and i53: "pow2 53 = real_of_int (2 ^ 53)"
    by (simp_all add: pow2_def)
  have "pow2 52 \<le> x / u" using lo u by (simp add: pe pos_le_divide_eq)
  then have "round_half_even (real_of_int (2 ^ 52)) \<le> round_half_even (x / u)"
    unfolding i52 by (rule round_half_even_mono)
  then have a: "real_of_int (2 ^ 52) \<le> real_of_int (round_half_even (x / u))"
    by (simp del: of_int_power of_int_numeral)
  have "x / u \<le> pow2 53" using hi u by (simp add: pe1 pos_divide_le_eq)
  then have "round_half_even (x / u) \<le> round_half_even (real_of_int (2 ^ 53))"
    unfolding i53 by (rule round_half_even_mono)
  then have b: "real_of_int (round_half_even (x / u)) \<le> real_of_int (2 ^ 53)"
    by (simp del: of_int_power of_int_numeral)
  have r: "round_positive x = real_of_int (round_half_even (x / u)) * u"
    by (simp add: round_positive_def u_def e_def Let_def)
  from a u have "pow2 52 * u \<le> real_of_int (round_half_even (x / u)) * u"
    unfolding i52 by (rule mult_right_mono [OF _ less_imp_le])
  then show "pow2 (binade x) \<le> round_positive x" by (simp add: r pe [symmetric] e_def)
  from b u have "real_of_int (round_half_even (x / u)) * u \<le> pow2 53 * u"
    unfolding i53 by (rule mult_right_mono [OF _ less_imp_le])
  then show "round_positive x \<le> pow2 (binade x + 1)" by (simp add: r pe1 [symmetric] e_def)
qed

lemma round_positive_pos: "0 < x \<Longrightarrow> 0 < round_positive x"
  using round_positive_bounds(1) [of x] pow2_pos [of "binade x"] by linarith

lemma binade_mono:
  assumes "0 < x" "x \<le> y"
  shows "binade x \<le> binade y"
proof -
  have "log 2 \<bar>x\<bar> \<le> log 2 \<bar>y\<bar>" using assms by simp
  then show ?thesis unfolding binade_def by (rule floor_mono)
qed

lemma round_positive_mono:
  assumes "0 < x" "x \<le> y"
  shows "round_positive x \<le> round_positive y"
proof (cases "binade x = binade y")
  case True
  let ?u = "pow2 (binade y - 52)"
  have "x / ?u \<le> y / ?u" using assms(2) by (intro divide_right_mono) simp_all
  then have "round_half_even (x / ?u) \<le> round_half_even (y / ?u)"
    by (rule round_half_even_mono)
  then have "real_of_int (round_half_even (x / ?u)) * ?u \<le>
             real_of_int (round_half_even (y / ?u)) * ?u"
    by (simp add: mult_right_mono)
  then show ?thesis by (simp add: round_positive_def True Let_def)
next
  case False
  with binade_mono [OF assms] have "binade x + 1 \<le> binade y" by simp
  then have "pow2 (binade x + 1) \<le> pow2 (binade y)" by (rule pow2_mono)
  moreover have "round_positive x \<le> pow2 (binade x + 1)"
    using assms(1) by (rule round_positive_bounds)
  moreover have "pow2 (binade y) \<le> round_positive y"
    using assms by (intro round_positive_bounds) simp
  ultimately show ?thesis by linarith
qed

lemma double_round_mono:
  assumes "x \<le> y"
  shows "double_round x \<le> double_round y"
proof -
  consider "x = 0" | "0 < x" | "x < 0" by linarith
  then show ?thesis
  proof cases
    case 1
    with assms round_positive_pos [of y] show ?thesis
      by (auto simp: double_round_def intro: less_imp_le)
  next
    case 2
    with assms have "0 < y" by simp
    with 2 round_positive_mono [OF 2 assms] show ?thesis by (simp add: double_round_def)
  next
    case 3
    consider "y = 0" | "0 < y" | "y < 0" by linarith
    then show ?thesis
    proof cases
      case 1
      with 3 round_positive_pos [of "- x"] show ?thesis by (simp add: double_round_def)
    next
      case 2
      with 3 round_positive_pos [of "- x"] round_positive_pos [of y] show ?thesis
        by (simp add: double_round_def)
    next
      case 3
      with \<open>x < 0\<close> assms have "0 < - y" "- y \<le> - x" by simp_all
      from round_positive_mono [OF this] 3 \<open>x < 0\<close> show ?thesis
        by (simp add: double_round_def)
    qed
  qed
qed

lemma double_round_zero [simp]: "double_round 0 = 0"
  by (simp add: double_round_def)

lemma double_round_nonneg: "0 \<le> x \<Longrightarrow> 0 \<le> double_round x"
  using double_round_mono [of 0 x] by simp

lemma double_round_nonpos: "x \<le> 0 \<Longrightarrow> double_round x \<le> 0"
  using double_round_mono [of x 0] by simp

lemma double_round_pos: "0 < x \<Longrightarrow> 0 < double_round x"
  by (simp add: double_round_def round_positive_pos)

lemma round_positive_eval:
  assumes "pow2 k \<le> x" "x < pow2 (k + 1)"
  shows "round_positive x = real_of_int (round_half_even (x / pow2 (k - 52))) * pow2 (k - 52)"
proof -
  have "0 < x" using assms(1) pow2_pos [of k] by linarith
  then have "binade x = k" using assms by (intro binade_unique) simp_all
  then show ?thesis by (simp add: round_positive_def Let_def)
qed

lemma double_round_50: "double_round 50 = 50"
proof -
  have "round_positive 50 = real_of_int (round_half_even (50 / pow2 (5 - 52))) * pow2 (5 - 52)"
    by (rule round_positive_eval) (simp_all add: pow2_def)
  also have "\<dots> = 50"
    by (simp add: pow2_def round_half_even_def)
  finally show ?thesis by (simp add: double_round_def)
qed

lemma one_tenth_value: "double_round (1 / 10) = 3602879701896397 / 36028797018963968"
proof -
  have "round_positive (1 / 10) =
          real_of_int (round_half_even ((1 / 10) / pow2 (- 4 - 52))) * pow2 (- 4 - 52)"
    by (rule round_positive_eval) (simp_all add: pow2_def)
  also have "\<dots> = 3602879701896397 / 36028797018963968"
    by (simp add: pow2_def round_half_even_def)
  finally show ?thesis by (simp add: double_round_def)
qed

subsection \<open>The values the display score needs\<close>

lemma double_round_neg: "double_round (- x) = - double_round x"
  by (simp add: double_round_def)

lemma float_literal_tenth: "float_literal (1 / 10) = 3602879701896397 / 36028797018963968"
  by (simp add: float_literal_def one_tenth_value)

lemma double_round_1: "double_round 1 = 1"
proof -
  have "round_positive 1 = real_of_int (round_half_even (1 / pow2 (0 - 52))) * pow2 (0 - 52)"
    by (rule round_positive_eval) (simp_all add: pow2_def)
  also have "\<dots> = 1"
    by (simp add: pow2_def round_half_even_def)
  finally show ?thesis by (simp add: double_round_def)
qed

lemma double_round_100: "double_round 100 = 100"
proof -
  have "round_positive 100 = real_of_int (round_half_even (100 / pow2 (6 - 52))) * pow2 (6 - 52)"
    by (rule round_positive_eval) (simp_all add: pow2_def)
  also have "\<dots> = 100"
    by (simp add: pow2_def round_half_even_def)
  finally show ?thesis by (simp add: double_round_def)
qed

lemma mul_500_tenth: "float_mul (- 500) (float_literal (1 / 10)) = - 50"
proof -
  let ?p = "500 * (3602879701896397 / 36028797018963968) :: real"
  have "round_positive ?p = real_of_int (round_half_even (?p / pow2 (5 - 52))) * pow2 (5 - 52)"
    by (rule round_positive_eval) (simp_all add: pow2_def)
  also have "\<dots> = 50"
    by (simp add: pow2_def round_half_even_def)
  finally have "double_round ?p = 50" by (simp add: double_round_def)
  then have "double_round (- ?p) = - 50" by (simp only: double_round_neg)
  then show ?thesis by (simp add: float_mul_def float_literal_tenth)
qed

lemma mul_tiny_tenth:
  "float_mul (- (1 / 2 ^ 60)) (float_literal (1 / 10)) =
     - (3602879701896397 / 41538374868278621028243970633760768)"
proof -
  let ?p = "(1 / 2 ^ 60) * (3602879701896397 / 36028797018963968) :: real"
  have "round_positive ?p =
          real_of_int (round_half_even (?p / pow2 (- 64 - 52))) * pow2 (- 64 - 52)"
    by (rule round_positive_eval) (simp_all add: pow2_def)
  also have "\<dots> = 3602879701896397 / 41538374868278621028243970633760768"
    by (simp add: pow2_def round_half_even_def)
  finally have "double_round ?p = 3602879701896397 / 41538374868278621028243970633760768"
    by (simp add: double_round_def)
  then have "double_round (- ?p) = - (3602879701896397 / 41538374868278621028243970633760768)"
    by (simp only: double_round_neg)
  then show ?thesis by (simp add: float_mul_def float_literal_tenth)
qed

lemma add_50_tiny:
  "float_add 50 (- (3602879701896397 / 41538374868278621028243970633760768)) = 50"
proof -
  let ?s = "50 + - (3602879701896397 / 41538374868278621028243970633760768) :: real"
  have "round_positive ?s = real_of_int (round_half_even (?s / pow2 (5 - 52))) * pow2 (5 - 52)"
    by (rule round_positive_eval) (simp_all add: pow2_def)
  also have "\<dots> = 50"
    by (simp add: pow2_def round_half_even_def)
  finally show ?thesis by (simp add: float_add_def double_round_def)
qed

lemma tiny_is_double: "double_round (- (1 / 2 ^ 60)) = - (1 / 2 ^ 60)"
proof -
  have "round_positive (1 / 2 ^ 60) =
          real_of_int (round_half_even ((1 / 2 ^ 60) / pow2 (- 60 - 52))) * pow2 (- 60 - 52)"
    by (rule round_positive_eval) (simp_all add: pow2_def)
  also have "\<dots> = 1 / 2 ^ 60"
    by (simp add: pow2_def round_half_even_def)
  finally have "double_round (1 / 2 ^ 60) = 1 / 2 ^ 60" by (simp add: double_round_def)
  then show ?thesis by (simp only: double_round_neg)
qed

lemma float_literal_tenth_pos: "0 < float_literal (1 / 10)"
  by (simp add: float_literal_tenth)

lemma double_round_48: "double_round 48 = 48"
proof -
  have "round_positive 48 = real_of_int (round_half_even (48 / pow2 (5 - 52))) * pow2 (5 - 52)"
    by (rule round_positive_eval) (simp_all add: pow2_def)
  also have "\<dots> = 48"
    by (simp add: pow2_def round_half_even_def)
  finally show ?thesis by (simp add: double_round_def)
qed

lemma double_round_20: "double_round 20 = 20"
proof -
  have "round_positive 20 = real_of_int (round_half_even (20 / pow2 (4 - 52))) * pow2 (4 - 52)"
    by (rule round_positive_eval) (simp_all add: pow2_def)
  also have "\<dots> = 20"
    by (simp add: pow2_def round_half_even_def)
  finally show ?thesis by (simp add: double_round_def)
qed

lemma mul_20_tenth: "float_mul (- 20) (float_literal (1 / 10)) = - 2"
proof -
  let ?p = "20 * (3602879701896397 / 36028797018963968) :: real"
  have "round_positive ?p = real_of_int (round_half_even (?p / pow2 (1 - 52))) * pow2 (1 - 52)"
    by (rule round_positive_eval) (simp_all add: pow2_def)
  also have "\<dots> = 2"
    by (simp add: pow2_def round_half_even_def)
  finally have "double_round ?p = 2" by (simp add: double_round_def)
  then have "double_round (- ?p) = - 2" by (simp only: double_round_neg)
  then show ?thesis by (simp add: float_mul_def float_literal_tenth)
qed

lemma mul_threshold_tenth:
  "float_mul (- (1 / 2 ^ 44)) (float_literal (1 / 10)) =
     - (3602879701896397 / 633825300114114700748351602688)"
proof -
  let ?p = "(1 / 2 ^ 44) * (3602879701896397 / 36028797018963968) :: real"
  have "round_positive ?p =
          real_of_int (round_half_even (?p / pow2 (- 48 - 52))) * pow2 (- 48 - 52)"
    by (rule round_positive_eval) (simp_all add: pow2_def)
  also have "\<dots> = 3602879701896397 / 633825300114114700748351602688"
    by (simp add: pow2_def round_half_even_def)
  finally have "double_round ?p = 3602879701896397 / 633825300114114700748351602688"
    by (simp add: double_round_def)
  then have "double_round (- ?p) = - (3602879701896397 / 633825300114114700748351602688)"
    by (simp only: double_round_neg)
  then show ?thesis by (simp add: float_mul_def float_literal_tenth)
qed

lemma add_50_threshold:
  "float_add 50 (- (3602879701896397 / 633825300114114700748351602688)) =
     7036874417766399 / 140737488355328"
proof -
  let ?s = "50 + - (3602879701896397 / 633825300114114700748351602688) :: real"
  have "round_positive ?s = real_of_int (round_half_even (?s / pow2 (5 - 52))) * pow2 (5 - 52)"
    by (rule round_positive_eval) (simp_all add: pow2_def)
  also have "\<dots> = 7036874417766399 / 140737488355328"
    by (simp add: pow2_def round_half_even_def)
  finally show ?thesis by (simp add: float_add_def double_round_def)
qed

lemma float_mul_mono: "x \<le> y \<Longrightarrow> 0 \<le> c \<Longrightarrow> float_mul x c \<le> float_mul y c"
  unfolding float_mul_def by (intro double_round_mono mult_right_mono)

lemma float_add_mono: "x \<le> y \<Longrightarrow> float_add c x \<le> float_add c y"
  unfolding float_add_def by (intro double_round_mono add_left_mono)

lemma float_add_50_0: "float_add 50 0 = 50"
  by (simp add: float_add_def double_round_50)

lemma negative_score_le_50:
  assumes "raw < 0"
  shows "float_add 50 (float_mul raw (float_literal (1 / 10))) \<le> 50"
proof -
  have "raw * float_literal (1 / 10) \<le> 0"
    using assms float_literal_tenth_pos by (simp add: mult_le_0_iff)
  then have "float_mul raw (float_literal (1 / 10)) \<le> 0"
    unfolding float_mul_def by (rule double_round_nonpos)
  then have "float_add 50 (float_mul raw (float_literal (1 / 10))) \<le> float_add 50 0"
    by (rule float_add_mono)
  then show ?thesis by (simp add: float_add_50_0)
qed

lemma negative_score_less_50:
  assumes "raw \<le> - (1 / 2 ^ 44)"
  shows "float_add 50 (float_mul raw (float_literal (1 / 10))) < 50"
proof -
  have "float_mul raw (float_literal (1 / 10)) \<le>
          float_mul (- (1 / 2 ^ 44)) (float_literal (1 / 10))"
    using assms float_literal_tenth_pos by (intro float_mul_mono) simp_all
  then have "float_add 50 (float_mul raw (float_literal (1 / 10))) \<le>
          float_add 50 (float_mul (- (1 / 2 ^ 44)) (float_literal (1 / 10)))"
    by (rule float_add_mono)
  also have "\<dots> = 7036874417766399 / 140737488355328"
    by (simp only: mul_threshold_tenth add_50_threshold)
  also have "\<dots> < (50 :: real)" by simp
  finally show ?thesis .
qed

lemma max_score_positive: "0 < n \<Longrightarrow> 0 < float_of_int (int n * 10)"
  unfolding float_of_int_def by (rule double_round_pos) simp

lemma percentage_nonneg:
  assumes "0 \<le> raw" "0 < m"
  shows "0 \<le> float_add 50 (float_mul (float_div raw m) 50)"
proof -
  have "0 \<le> float_div raw m"
    unfolding float_div_def using assms by (intro double_round_nonneg) simp
  then have "0 \<le> float_mul (float_div raw m) 50"
    unfolding float_mul_def by (intro double_round_nonneg) simp
  then show ?thesis
    unfolding float_add_def by (intro double_round_nonneg) simp
qed

lemma percentage_full:
  assumes "0 < m"
  shows "float_add 50 (float_mul (float_div m m) 50) = 100"
proof -
  have "float_div m m = 1" using assms by (simp add: float_div_def double_round_1)
  then show ?thesis by (simp add: float_mul_def float_add_def double_round_50 double_round_100)
qed

subsection \<open>The display score\<close>

text \<open>
  Claim C3, as stated, has every negative raw score mapped below \<open>50\<close>. The code adds
  \<^verbatim>\<open>raw_fitness * 0.1\<close> to \<^verbatim>\<open>50.0\<close> in binary64, where the floats next to \<open>50\<close> are
  \<open>2 ^ 47\<close>-ths apart: for the float \<open>- (1 / 2 ^ 60)\<close>, which is negative, the sum rounds
  to \<open>50\<close> and \<^verbatim>\<open>calculate_normalized_score\<close> returns exactly \<open>50\<close>.
\<close>

theorem normalized_score_not_below_50_counterexample:
  "- (1 / 2 ^ 60) < (0 :: real) \<and>
   double_round (- (1 / 2 ^ 60)) = - (1 / 2 ^ 60) \<and>
   calculate_normalized_score [stool] (- (1 / 2 ^ 60)) = 50"
  using mul_tiny_tenth add_50_tiny tiny_is_double
  by (simp add: calculate_normalized_score_def)

text \<open>
  Claim C3, amended. With the operations of binary64 (\<open>float_add\<close>, \<open>float_mul\<close>,
  \<open>float_div\<close>, each the exact result rounded to the nearest float),
  \<^verbatim>\<open>calculate_normalized_score\<close> returns \<open>max 0 (50 + raw * 0.1)\<close> for a negative raw score,
  which is at most \<open>50\<close>, and below \<open>50\<close> when the raw score is at most \<open>- (1 / 2 ^ 44)\<close>;
  it returns \<open>50\<close> for an empty furniture list; and \<open>min 100 (50 + raw / (n * 10) * 50)\<close>
  otherwise. In particular a raw score \<open>0\<close> gives \<open>50\<close> and \<open>n * 10\<close> gives \<open>100\<close> for
  \<open>n > 0\<close>, \<open>- 500\<close> gives \<open>0\<close>, and the result lies in \<open>[0, 100]\<close>.
\<close>

theorem normalized_score_rounded:
  "calculate_normalized_score items raw =
     (if raw < 0 then max 0 (float_add 50 (float_mul raw (float_literal (1 / 10))))
      else if length items = 0 then 50
      else min 100 (float_add 50
             (float_mul (float_div raw (float_of_int (int (length items) * 10))) 50))) \<and>
   (raw < 0 \<longrightarrow> calculate_normalized_score items raw \<le> 50) \<and>
   (raw \<le> - (1 / 2 ^ 44) \<longrightarrow> calculate_normalized_score items raw < 50) \<and>
   (0 < length items \<longrightarrow> calculate_normalized_score items 0 = 50) \<and>
   calculate_normalized_score items (- 500) = 0 \<and>
   (0 < length items \<longrightarrow>
      calculate_normalized_score items (float_of_int (int (length items) * 10)) = 100) \<and>
   0 \<le> calculate_normalized_score items raw \<and> calculate_normalized_score items raw \<le> 100"
proof -
  have f: "calculate_normalized_score items raw =
     (if raw < 0 then max 0 (float_add 50 (float_mul raw (float_literal (1 / 10))))
      else if length items = 0 then 50
      else min 100 (float_add 50
             (float_mul (float_div raw (float_of_int (int (length items) * 10))) 50)))"
    by (simp add: calculate_normalized_score_def Let_def)
  have le: "calculate_normalized_score items raw \<le> 50" if "raw < 0"
    using that negative_score_le_50 [OF that] by (simp add: calculate_normalized_score_def)
  have below: "calculate_normalized_score items raw < 50" if "raw \<le> - (1 / 2 ^ 44)"
  proof -
    from that have "raw < 0" by (simp add: order.strict_trans1)
    with negative_score_less_50 [OF that] show ?thesis
      by (simp add: calculate_normalized_score_def)
  qed
  have zero: "calculate_normalized_score items 0 = 50" if "0 < length items"
    using that
    by (simp add: calculate_normalized_score_def Let_def float_div_def float_mul_def
        float_add_50_0)
  have clamp: "calculate_normalized_score items (- 500) = 0"
    by (simp add: calculate_normalized_score_def mul_500_tenth float_add_def)
  have top: "calculate_normalized_score items (float_of_int (int (length items) * 10)) = 100"
    if "0 < length items"
  proof -
    have m: "0 < float_of_int (int (length items) * 10)"
      using that by (rule max_score_positive)
    then have "\<not> float_of_int (int (length items) * 10) < 0" by simp
    with that percentage_full [OF m] show ?thesis
      by (simp add: calculate_normalized_score_def Let_def)
  qed
  have lo: "0 \<le> calculate_normalized_score items raw"
  proof (cases "raw < 0")
    case True
    then show ?thesis by (simp add: calculate_normalized_score_def)
  next
    case False
    show ?thesis
    proof (cases "length items = 0")
      case True
      with False show ?thesis by (simp add: calculate_normalized_score_def)
    next
      case n: False
      then have "0 < float_of_int (int (length items) * 10)"
        by (intro max_score_positive) simp
      with False have "0 \<le> float_add 50
             (float_mul (float_div raw (float_of_int (int (length items) * 10))) 50)"
        by (intro percentage_nonneg) simp_all
      with False n show ?thesis by (simp add: calculate_normalized_score_def Let_def)
    qed
  qed
  have hi: "calculate_normalized_score items raw \<le> 100"
  proof (cases "raw < 0")
    case True
    with le [OF True] show ?thesis by simp
  next
    case False
    then show ?thesis by (simp add: calculate_normalized_score_def Let_def)
  qed
  from f le below zero clamp top lo hi show ?thesis by blast
qed

theorem normalized_score_rounded_witness:
  "(- 20 :: real) < 0 \<and> (- 20 :: real) \<le> - (1 / 2 ^ 44) \<and> 0 < length [chair, wardrobe] \<and>
   calculate_normalized_score [chair, wardrobe] (- 20) = 48 \<and>
   calculate_normalized_score [chair, wardrobe] (- 20) < 50 \<and>
   calculate_normalized_score [chair, wardrobe] 0 = 50 \<and>
   calculate_normalized_score [chair, wardrobe] (- 500) = 0 \<and>
   float_of_int (int (length [chair, wardrobe]) * 10) = 20 \<and>
   calculate_normalized_score [chair, wardrobe] 20 = 100"
  using normalized_score_rounded [of "[chair, wardrobe]" "- 20"]
    mul_20_tenth double_round_48 double_round_20
  by (simp add: float_of_int_def float_add_def)

subsection \<open>The approximator at construction and in the evaluation loop\<close>

lemma load_ml_model_missing: "\<not> path_exists env \<Longrightarrow> load_ml_model env = None"
  by (simp add: load_ml_model_def)

lemma load_ml_model_loaded:
  "path_exists env \<Longrightarrow> load_state_dict env (new_model env) = Inr m \<Longrightarrow>
   load_ml_model env = Some m"
  by (simp add: load_ml_model_def)

lemma final_score_blend:
  "ml_model self = Some m \<Longrightarrow>
   calculate_fitness (geom self) (room_poly self) (furniture_items self) ind = Inr geo \<Longrightarrow>
   get_ml_score self ind = Inr ml \<Longrightarrow> final_score self ind = Inr (0.7 * geo + 0.3 * ml)"
  by (simp add: final_score_def)

lemma final_score_geo:
  "ml_model self = None \<Longrightarrow>
   final_score self ind =
     calculate_fitness (geom self) (room_poly self) (furniture_items self) ind"
  by (simp add: final_score_def split: sum.splits)

text \<open>
  Claim C5. The fitness used by the optimizer is \<open>0.7 * geoScore + 0.3 * mlScore\<close> when the
  approximator is loaded and \<open>geoScore\<close> when it is not, and a missing or unloadable
  artifact leaves the model absent. The blend and the missing file are as claimed
  (\<open>final_score_blend\<close>, \<open>final_score_geo\<close>, \<open>load_ml_model_missing\<close>); construction never
  raises. For an artifact that exists and fails to load, however, \<^verbatim>\<open>self.ml_model\<close> was
  already assigned the freshly constructed network before the failing load, the handler
  leaves it there, and every candidate is scored with the blend of that unloaded network.
\<close>

theorem unloadable_model_stays_present:
  "load_ml_model (corrupt_artifact untrained) = Some untrained \<and>
   ml_model (GeneticOptimizer_init L (corrupt_artifact untrained) room items n gens) =
     Some untrained \<and>
   final_score (GeneticOptimizer_init L (corrupt_artifact untrained) room items n gens) ind =
     (case calculate_fitness L room items ind of
        Inl e \<Rightarrow> Inl e
      | Inr geo_score \<Rightarrow>
          (case get_ml_score
                  (GeneticOptimizer_init L (corrupt_artifact untrained) room items n gens) ind of
             Inl e \<Rightarrow> Inl e
           | Inr ml_score \<Rightarrow> Inr (geo_score * 0.7 + ml_score * 0.3)))"
  by (simp add: GeneticOptimizer_init_def corrupt_artifact_def load_ml_model_def
      final_score_def split: sum.splits)

section \<open>The fitness function against its specification\<close>

lemma footprints_fp: "footprints L items layout = map (fp L) (zip items layout)"
  by (simp add: footprints_def fp_def)

lemma boundary_pass_sum:
  assumes "i + length items \<le> length layout"
    and "\<forall>p \<in> set (map (fp L) (zip items (drop i layout))). check_boundary L room p = Inr (inside p)"
  shows "boundary_pass L room layout items i polys pen =
           Inr (polys @ map (fp L) (zip items (drop i layout)),
                pen + 1000 * real (length (filter (\<lambda>p. \<not> inside p)
                                             (map (fp L) (zip items (drop i layout))))))"
  using assms
proof (induction items arbitrary: i polys pen)
  case Nil
  then show ?case by simp
next
  case (Cons item items)
  from Cons.prems(1) have i: "i < length layout" by simp
  then have d: "drop i layout = layout ! i # drop (Suc i) layout"
    by (simp add: Cons_nth_drop_Suc)
  obtain x y rot where l: "layout ! i = (x, y, rot)" by (cases "layout ! i") auto
  let ?poly = "create_furniture_polygon_wrapper L item x y rot"
  have fpv: "fp L (item, layout ! i) = ?poly" by (simp add: fp_def l)
  have cb: "check_boundary L room ?poly = Inr (inside ?poly)"
    using Cons.prems(2) by (simp add: d fpv)
  have rest: "\<forall>p \<in> set (map (fp L) (zip items (drop (Suc i) layout))).
                check_boundary L room p = Inr (inside p)"
    using Cons.prems(2) by (simp add: d)
  have le: "Suc i + length items \<le> length layout" using Cons.prems(1) by simp
  note IH = Cons.IH [OF le rest]
  show ?case
    by (simp add: i l cb IH d fp_def Let_def)
qed

lemma overlap_row_sum:
  assumes "\<forall>j \<in> set js. calculate_overlap_area L (polys ! i) (polys ! j) = Inr (ov (polys ! i) (polys ! j))"
  shows "overlap_row L polys i js pen =
           Inr (pen + sum_list (map (\<lambda>j. if ov (polys ! i) (polys ! j) > 0
                                           then ov (polys ! i) (polys ! j) * 500 else 0) js))"
  using assms
  by (induction js arbitrary: pen) (simp_all add: add.assoc)

lemma overlap_pass_sum:
  assumes "\<forall>i \<in> set is. \<forall>j \<in> set [Suc i..<length polys].
             calculate_overlap_area L (polys ! i) (polys ! j) = Inr (ov (polys ! i) (polys ! j))"
  shows "overlap_pass L polys is pen =
           Inr (pen + sum_list (map (\<lambda>i. sum_list (map (\<lambda>j. if ov (polys ! i) (polys ! j) > 0
                                           then ov (polys ! i) (polys ! j) * 500 else 0)
                                         [Suc i..<length polys])) is))"
  using assms
proof (induction "is" arbitrary: pen)
  case Nil
  then show ?case by simp
next
  case (Cons i "is")
  have row: "overlap_row L polys i [Suc i..<length polys] pen =
           Inr (pen + sum_list (map (\<lambda>j. if ov (polys ! i) (polys ! j) > 0
                                           then ov (polys ! i) (polys ! j) * 500 else 0)
                                  [Suc i..<length polys]))"
    by (rule overlap_row_sum) (use Cons.prems in simp)
  have rest: "\<forall>i \<in> set is. \<forall>j \<in> set [Suc i..<length polys].
             calculate_overlap_area L (polys ! i) (polys ! j) = Inr (ov (polys ! i) (polys ! j))"
    using Cons.prems by simp
  show ?case
    by (simp add: row Cons.IH [OF rest] add.assoc)
qed

lemma sum_list_concat_real: "sum_list (concat xss) = sum_list (map sum_list xss)" for xss :: "real list list"
  by (induction xss) simp_all

lemma pair_sum_spec:
  "sum_list (map (\<lambda>i. sum_list (map (\<lambda>j. if (0::real) < f i j then f i j * 500 else 0) [Suc i..<n]))
              [0..<n]) =
   sum_list (map (\<lambda>(i, j). f i j * 500) (filter (\<lambda>(i, j). f i j > 0) (unordered_pairs n)))"
proof -
  have "sum_list (map (\<lambda>(i, j). f i j * 500) (filter (\<lambda>(i, j). f i j > 0) (unordered_pairs n))) =
        sum_list (map (\<lambda>(i, j). if f i j > 0 then f i j * 500 else 0) (unordered_pairs n))"
    by (simp add: sum_list_map_filter' case_prod_unfold)
  also have "\<dots> = sum_list (map (\<lambda>i. sum_list (map (\<lambda>j. if 0 < f i j then f i j * 500 else 0)
                                   [Suc i..<n])) [0..<n])"
    by (simp add: unordered_pairs_def sum_list_concat_real map_concat comp_def)
  finally show ?thesis by simp
qed

lemma alignment_pass_sum:
  assumes "\<forall>p \<in> set polys. get_nearest_wall_distance L room p = Inr (wdist p)"
  shows "alignment_pass L room polys acc =
           Inr (acc + 10 * real (length (filter (\<lambda>p. wdist p < 0.1) polys)))"
  using assms
  by (induction polys arbitrary: acc) (simp_all add: add.assoc)

lemma spec_overlap_nonneg:
  "0 \<le> sum_list (map (\<lambda>(i, j). f i j * 500) (filter (\<lambda>(i, j). f i j > (0::real)) ps))"
  by (rule sum_list_nonneg) auto

lemma spec_penalty_nonneg: "0 \<le> spec_penalty inside ov polys"
  unfolding spec_penalty_def
  by (intro add_nonneg_nonneg spec_overlap_nonneg) simp

lemma calculate_fitness_refines:
  assumes len: "length layout = length items"
    and cb: "\<forall>p \<in> set (footprints L items layout). check_boundary L room p = Inr (inside p)"
    and co: "\<forall>a \<in> set (footprints L items layout). \<forall>b \<in> set (footprints L items layout).
               calculate_overlap_area L a b = Inr (ov a b)"
    and wd: "\<forall>p \<in> set (footprints L items layout).
               get_nearest_wall_distance L room p = Inr (wdist p)"
  shows "calculate_fitness L room items layout =
           Inr (spec_fitness inside ov wdist (footprints L items layout))"
proof -
  let ?polys = "footprints L items layout"
  have bp: "boundary_pass L room layout items 0 [] 0 =
              Inr (?polys, 1000 * real (length (filter (\<lambda>p. \<not> inside p) ?polys)))"
    using boundary_pass_sum [of 0 items layout L room inside "[]" 0] len cb
    by (simp add: footprints_fp)
  have idx: "\<forall>i \<in> set [0..<length ?polys]. \<forall>j \<in> set [Suc i..<length ?polys].
               calculate_overlap_area L (?polys ! i) (?polys ! j) = Inr (ov (?polys ! i) (?polys ! j))"
    using co by (auto intro: nth_mem)
  have op: "overlap_pass L ?polys [0..<length ?polys]
              (1000 * real (length (filter (\<lambda>p. \<not> inside p) ?polys))) =
            Inr (spec_penalty inside ov ?polys)"
    unfolding overlap_pass_sum [OF idx] spec_penalty_def
    by (simp add: pair_sum_spec [of "\<lambda>i j. ov (?polys ! i) (?polys ! j)"])
  have ap: "alignment_pass L room ?polys 0 = Inr (spec_alignment wdist ?polys)"
    unfolding alignment_pass_sum [OF wd] spec_alignment_def by simp
  show ?thesis
    unfolding calculate_fitness_def bp
    by (simp add: op ap spec_fitness_def)
qed

subsection \<open>Evaluation in the rectangle geometry\<close>

lemma rect_check_boundary:
  "check_boundary rect_shapely room p = Inr (rect_inside room p)"
  by (simp add: check_boundary_def check_containment_def rect_shapely_def rect_inside_def)

lemma rect_calculate_overlap_area:
  "calculate_overlap_area rect_shapely a b = Inr (rect_overlap a b)"
  by (simp add: calculate_overlap_area_def rect_shapely_def rect_overlap_def)

lemma rect_get_nearest_wall_distance:
  "get_nearest_wall_distance rect_shapely room p = Inr (rect_wall_distance room p)"
  by (simp add: get_nearest_wall_distance_def distance_to_wall_def rect_shapely_def
      rect_wall_distance_def)

lemma rect_footprint:
  "create_furniture_polygon_wrapper rect_shapely item x y 0 =
     [(x - width item / 2, y - depth item / 2), (x + width item / 2, y - depth item / 2),
      (x + width item / 2, y + depth item / 2), (x - width item / 2, y + depth item / 2)]"
  by (simp add: create_furniture_polygon_wrapper_def create_furniture_polygon_def
      rect_shapely_def rect_translate_def Let_def)

lemma rect_bounds_box:
  "x0 \<le> x1 \<Longrightarrow> y0 \<le> y1 \<Longrightarrow>
   rect_bounds [(x0, y0), (x1, y0), (x1, y1), (x0, y1)] = (x0, y0, x1, y1)"
  by (simp add: rect_bounds_def coords_min_def coords_max_def min_def max_def)

lemma unordered_pairs_2: "unordered_pairs (Suc (Suc 0)) = [(0, Suc 0)]"
  by (simp add: unordered_pairs_def upt_rec)

lemma rect_overlap_box:
  assumes "ax0 \<le> ax1" "ay0 \<le> ay1" "bx0 \<le> bx1" "by0 \<le> by1"
  shows "rect_overlap [(ax0, ay0), (ax1, ay0), (ax1, ay1), (ax0, ay1)]
                      [(bx0, by0), (bx1, by0), (bx1, by1), (bx0, by1)] =
           (if max ax0 bx0 \<le> min ax1 bx1 \<and> max ay0 by0 \<le> min ay1 by1
            then (min ax1 bx1 - max ax0 bx0) * (min ay1 by1 - max ay0 by0) else 0)"
  using assms
  by (simp add: rect_overlap_def rect_intersects_def rect_intersection_area_def rect_bounds_box)

lemma rect_inside_box:
  assumes "ax0 \<le> ax1" "ay0 \<le> ay1" "bx0 \<le> bx1" "by0 \<le> by1"
  shows "rect_inside [(ax0, ay0), (ax1, ay0), (ax1, ay1), (ax0, ay1)]
                     [(bx0, by0), (bx1, by0), (bx1, by1), (bx0, by1)] =
           (ax0 \<le> bx0 \<and> ay0 \<le> by0 \<and> bx1 \<le> ax1 \<and> by1 \<le> ay1)"
  using assms
  by (simp add: rect_inside_def rect_contains_def rect_bounds_box)

text \<open>
  Claim C2. For a layout with one placement per furniture item, \<^verbatim>\<open>calculate_fitness\<close> adds
  \<open>1000\<close> for each footprint that is not inside the room and the overlap area times \<open>500\<close>
  for each unordered pair of footprints with positive overlap; a positive total is returned
  negated, and otherwise the result is ten times the number of footprints whose centroid
  is closer than \<open>0.1\<close> to the room boundary, which is not negative. The geometric queries
  on the footprints are assumed to return values \<open>inside\<close>, \<open>ov\<close> and \<open>wdist\<close>.
\<close>

theorem calculate_fitness_spec:
  assumes len: "length layout = length items"
    and cb: "\<forall>p \<in> set (footprints L items layout). check_boundary L room p = Inr (inside p)"
    and co: "\<forall>a \<in> set (footprints L items layout). \<forall>b \<in> set (footprints L items layout).
               calculate_overlap_area L a b = Inr (ov a b)"
    and wd: "\<forall>p \<in> set (footprints L items layout).
               get_nearest_wall_distance L room p = Inr (wdist p)"
  shows "calculate_fitness L room items layout =
           Inr (spec_fitness inside ov wdist (footprints L items layout)) \<and>
         (spec_penalty inside ov (footprints L items layout) > 0 \<longrightarrow>
            calculate_fitness L room items layout =
              Inr (- spec_penalty inside ov (footprints L items layout))) \<and>
         (\<not> spec_penalty inside ov (footprints L items layout) > 0 \<longrightarrow>
            calculate_fitness L room items layout =
              Inr (10 * real (length (filter (\<lambda>p. wdist p < 0.1) (footprints L items layout)))) \<and>
            (\<exists>s. calculate_fitness L room items layout = Inr s \<and> 0 \<le> s))"
  using calculate_fitness_refines [OF len cb co wd]
  by (simp add: spec_fitness_def spec_alignment_def)

lemma forced_overlap_footprints:
  "footprints rect_shapely [sofa, sofa] [(2, 2, 0), (2, 2, 0)] =
     [[(1, 1), (3, 1), (3, 3), (1, 3)], [(1, 1), (3, 1), (3, 3), (1, 3)]]"
  by (simp add: footprints_def rect_footprint sofa_def)

lemma forced_overlap_penalty:
  "spec_penalty (rect_inside square_room) rect_overlap
     [[(1, 1), (3, 1), (3, 3), (1, 3)], [(1, 1), (3, 1), (3, 3), (1, 3)]] = 2000"
  by (simp add: spec_penalty_def unordered_pairs_2 square_room_def rect_inside_box
      rect_overlap_box)

theorem calculate_fitness_spec_witness:
  "length [(2, 2, 0), (2, 2, 0 :: int)] = length [sofa, sofa] \<and>
   spec_penalty (rect_inside square_room) rect_overlap
     (footprints rect_shapely [sofa, sofa] [(2, 2, 0), (2, 2, 0)]) = 2000 \<and>
   calculate_fitness rect_shapely square_room [sofa, sofa] [(2, 2, 0), (2, 2, 0)] = Inr (- 2000)"
proof -
  have h1: "length [(2, 2, 0), (2, 2, 0 :: int)] = length [sofa, sofa]" by simp
  have h2: "\<forall>p \<in> set (footprints rect_shapely [sofa, sofa] [(2, 2, 0), (2, 2, 0)]).
      check_boundary rect_shapely square_room p = Inr (rect_inside square_room p)"
    by (simp add: rect_check_boundary)
  have h3: "\<forall>a \<in> set (footprints rect_shapely [sofa, sofa] [(2, 2, 0), (2, 2, 0)]).
    \<forall>b \<in> set (footprints rect_shapely [sofa, sofa] [(2, 2, 0), (2, 2, 0)]).
      calculate_overlap_area rect_shapely a b = Inr (rect_overlap a b)"
    by (simp add: rect_calculate_overlap_area)
  have h4: "\<forall>p \<in> set (footprints rect_shapely [sofa, sofa] [(2, 2, 0), (2, 2, 0)]).
      get_nearest_wall_distance rect_shapely square_room p =
        Inr (rect_wall_distance square_room p)"
    by (simp add: rect_get_nearest_wall_distance)
  have p: "spec_penalty (rect_inside square_room) rect_overlap
     (footprints rect_shapely [sofa, sofa] [(2, 2, 0), (2, 2, 0)]) = 2000"
    by (simp only: forced_overlap_footprints forced_overlap_penalty)
  from calculate_fitness_spec [OF h1 h2 h3 h4] p
  have "calculate_fitness rect_shapely square_room [sofa, sofa] [(2, 2, 0), (2, 2, 0)] =
          Inr (- 2000)"
    by (simp add: spec_fitness_def)
  with h1 p show ?thesis by blast
qed

section \<open>Hard constraints against the fitness penalty\<close>

lemma calculate_fitness_penalty_form:
  assumes len: "length layout = length items"
    and cb: "\<forall>p \<in> set (footprints L items layout). check_boundary L room p = Inr (inside p)"
    and co: "\<forall>i < length (footprints L items layout). \<forall>j < length (footprints L items layout).
               i < j \<longrightarrow>
               calculate_overlap_area L (footprints L items layout ! i) (footprints L items layout ! j) =
                 Inr (ov (footprints L items layout ! i) (footprints L items layout ! j))"
  shows "calculate_fitness L room items layout =
           (if spec_penalty inside ov (footprints L items layout) > 0
            then Inr (- spec_penalty inside ov (footprints L items layout))
            else (case alignment_pass L room (footprints L items layout) 0 of
                    Inl e \<Rightarrow> Inl e
                  | Inr alignment_score \<Rightarrow> Inr (0 + alignment_score)))"
proof -
  let ?polys = "footprints L items layout"
  have bp: "boundary_pass L room layout items 0 [] 0 =
              Inr (?polys, 1000 * real (length (filter (\<lambda>p. \<not> inside p) ?polys)))"
    using boundary_pass_sum [of 0 items layout L room inside "[]" 0] len cb
    by (simp add: footprints_fp)
  have idx: "\<forall>i \<in> set [0..<length ?polys]. \<forall>j \<in> set [Suc i..<length ?polys].
               calculate_overlap_area L (?polys ! i) (?polys ! j) = Inr (ov (?polys ! i) (?polys ! j))"
    using co by auto
  have op: "overlap_pass L ?polys [0..<length ?polys]
              (1000 * real (length (filter (\<lambda>p. \<not> inside p) ?polys))) =
            Inr (spec_penalty inside ov ?polys)"
    unfolding overlap_pass_sum [OF idx] spec_penalty_def
    by (simp add: pair_sum_spec [of "\<lambda>i j. ov (?polys ! i) (?polys ! j)"])
  show ?thesis
    unfolding calculate_fitness_def bp
    by (simp add: op)
qed

lemma set_unordered_pairs: "set (unordered_pairs n) = {(i, j). i < j \<and> j < n}"
proof -
  have "(a, b) \<in> set (unordered_pairs n)" if "a < b" "b < n" for a b
  proof -
    have "a \<in> {0..<n}" "(a, b) \<in> Pair a ` {Suc a..<n}" using that by auto
    then show ?thesis by (auto simp: unordered_pairs_def)
  qed
  moreover have "a < b \<and> b < n" if "(a, b) \<in> set (unordered_pairs n)" for a b
    using that by (auto simp: unordered_pairs_def)
  ultimately show ?thesis by auto
qed

lemma member_le_sum_list_real:
  "x \<in> set xs \<Longrightarrow> (\<forall>y \<in> set xs. 0 \<le> y) \<Longrightarrow> x \<le> sum_list xs" for x :: real
proof (induction xs)
  case Nil
  then show ?case by simp
next
  case (Cons a xs)
  have nn: "0 \<le> sum_list xs" using Cons.prems(2) by (intro sum_list_nonneg) simp
  show ?case
  proof (cases "x = a")
    case True
    with nn show ?thesis by simp
  next
    case False
    with Cons.prems have "x \<in> set xs" "\<forall>y \<in> set xs. 0 \<le> y" by simp_all
    from Cons.IH [OF this] Cons.prems(2) show ?thesis by simp
  qed
qed

lemma spec_penalty_positive:
  assumes "i < j" "j < length polys" "ov (polys ! i) (polys ! j) > 0"
  shows "spec_penalty inside ov polys > 0"
proof -
  let ?ps = "filter (\<lambda>(i, j). ov (polys ! i) (polys ! j) > 0) (unordered_pairs (length polys))"
  let ?ts = "map (\<lambda>(i, j). ov (polys ! i) (polys ! j) * 500) ?ps"
  have "(i, j) \<in> set ?ps" using assms by (simp add: set_unordered_pairs)
  then have mem: "ov (polys ! i) (polys ! j) * 500 \<in> set ?ts" by force
  have nn: "\<forall>y \<in> set ?ts. 0 \<le> y" by auto
  from member_le_sum_list_real [OF mem nn] assms(3) have "0 < sum_list ?ts" by simp
  then show ?thesis unfolding spec_penalty_def
    by (simp add: add_nonneg_pos)
qed

lemma check_overlap_tolerance:
  assumes "\<forall>b \<in> set others. calculate_overlap_area L p b = Inr (ov p b) \<and> ov p b \<le> 0.01"
  shows "check_overlap L p others = Inr False"
  using assms
proof (induction others)
  case Nil
  then show ?case by simp
next
  case (Cons b others)
  from Cons.prems have c: "calculate_overlap_area L p b = Inr (ov p b)" and s: "ov p b \<le> 0.01"
    by simp_all
  from c obtain hit where h: "shp_intersects L p b = Inr hit"
    by (auto simp: calculate_overlap_area_def split: sum.splits)
  from Cons.prems have "check_overlap L p others = Inr False" by (intro Cons.IH) simp
  with c s h show ?case by (simp add: check_intersection_def)
qed

lemma check_overlap_detects:
  assumes "calculate_overlap_area L p b = Inr a" "a > 0.01"
  shows "check_overlap L p (b # others) = Inr True"
proof -
  from assms obtain hit where h: "shp_intersects L p b = Inr hit"
    by (auto simp: calculate_overlap_area_def split: sum.splits)
  with assms have "hit" by (auto simp: calculate_overlap_area_def split: if_splits)
  with h assms show ?thesis by (simp add: check_intersection_def)
qed

text \<open>
  Claim C10. The overlap predicate and the fitness penalty use different thresholds:
  \<^verbatim>\<open>check_overlap\<close>, and with it \<^verbatim>\<open>check_hard_constraints\<close>, ignores a pairwise overlap area
  of at most \<open>0.01\<close>, while \<^verbatim>\<open>calculate_fitness\<close> penalises every positive overlap area. So
  a layout whose footprints are all inside the room, with pairwise overlaps of at most
  \<open>0.01\<close> and one of them positive, passes the hard constraints for every item against
  the other footprints and still has a negative fitness. Such layouts exist: two unit
  squares overlapping in a strip of area \<open>0.005\<close>, evaluated below.
\<close>

theorem thresholds_differ:
  assumes len: "length layout = length items"
    and cb: "\<forall>p \<in> set (footprints L items layout). check_boundary L room p = Inr True"
    and co: "\<forall>k < length (footprints L items layout). \<forall>m < length (footprints L items layout).
               k \<noteq> m \<longrightarrow>
               calculate_overlap_area L (footprints L items layout ! k) (footprints L items layout ! m) =
                 Inr (ov (footprints L items layout ! k) (footprints L items layout ! m)) \<and>
               ov (footprints L items layout ! k) (footprints L items layout ! m) \<le> 0.01"
    and pos: "\<exists>i j. i < j \<and> j < length (footprints L items layout) \<and>
               ov (footprints L items layout ! i) (footprints L items layout ! j) > 0"
  shows "(\<forall>k < length (footprints L items layout).
            check_overlap L (footprints L items layout ! k)
              (take k (footprints L items layout) @ drop (Suc k) (footprints L items layout)) =
              Inr False \<and>
            check_hard_constraints L room (footprints L items layout ! k)
              (take k (footprints L items layout) @ drop (Suc k) (footprints L items layout)) =
              Inr True) \<and>
         spec_penalty (\<lambda>p. True) ov (footprints L items layout) > 0 \<and>
         calculate_fitness L room items layout =
           Inr (- spec_penalty (\<lambda>p. True) ov (footprints L items layout)) \<and>
         (\<exists>s. calculate_fitness L room items layout = Inr s \<and> s < 0)"
proof -
  let ?polys = "footprints L items layout"
  have hard: "check_overlap L (?polys ! k) (take k ?polys @ drop (Suc k) ?polys) = Inr False \<and>
              check_hard_constraints L room (?polys ! k) (take k ?polys @ drop (Suc k) ?polys) =
              Inr True"
    if k: "k < length ?polys" for k
  proof -
    have pk: "?polys ! k \<in> set ?polys" using k by simp
    have other: "\<exists>m < length ?polys. m \<noteq> k \<and> b = ?polys ! m"
      if "b \<in> set (take k ?polys @ drop (Suc k) ?polys)" for b
    proof -
      from that consider "b \<in> set (take k ?polys)" | "b \<in> set (drop (Suc k) ?polys)"
        by auto
      then show ?thesis
      proof cases
        case 1
        then obtain m where "m < length (take k ?polys)" "b = take k ?polys ! m"
          by (auto simp: in_set_conv_nth)
        with k have "m < length ?polys" "m \<noteq> k" "b = ?polys ! m" by simp_all
        then show ?thesis by blast
      next
        case 2
        then obtain i where i: "i < length (drop (Suc k) ?polys)" "b = drop (Suc k) ?polys ! i"
          by (auto simp: in_set_conv_nth)
        with k have "Suc k + i < length ?polys" "Suc k + i \<noteq> k" "b = ?polys ! (Suc k + i)"
          by simp_all
        then show ?thesis by blast
      qed
    qed
    have "\<forall>b \<in> set (take k ?polys @ drop (Suc k) ?polys).
            calculate_overlap_area L (?polys ! k) b = Inr (ov (?polys ! k) b) \<and>
            ov (?polys ! k) b \<le> 0.01"
    proof
      fix b assume "b \<in> set (take k ?polys @ drop (Suc k) ?polys)"
      from other [OF this] obtain m where "m < length ?polys" "m \<noteq> k" "b = ?polys ! m"
        by blast
      with co k show "calculate_overlap_area L (?polys ! k) b = Inr (ov (?polys ! k) b) \<and>
            ov (?polys ! k) b \<le> 0.01"
        by auto
    qed
    then have ov: "check_overlap L (?polys ! k) (take k ?polys @ drop (Suc k) ?polys) = Inr False"
      by (rule check_overlap_tolerance)
    have "check_boundary L room (?polys ! k) = Inr True" using cb pk by blast
    with ov show ?thesis by (simp add: check_hard_constraints_def)
  qed
  from pos obtain i j where ij: "i < j" "j < length ?polys" "ov (?polys ! i) (?polys ! j) > 0"
    by blast
  have ppos: "spec_penalty (\<lambda>p. True) ov ?polys > 0"
    using ij by (rule spec_penalty_positive [where i = i and j = j])
  have co': "\<forall>i < length ?polys. \<forall>j < length ?polys. i < j \<longrightarrow>
               calculate_overlap_area L (?polys ! i) (?polys ! j) = Inr (ov (?polys ! i) (?polys ! j))"
    using co by auto
  have fit: "calculate_fitness L room items layout = Inr (- spec_penalty (\<lambda>p. True) ov ?polys)"
    using calculate_fitness_penalty_form [OF len cb co'] ppos by simp
  from hard ppos fit show ?thesis by auto
qed

subsection \<open>Two unit squares overlapping in a thin strip\<close>

lemma strip_footprints:
  "footprints rect_shapely [stool, stool] [(1, 1, 0), (399 / 200, 1, 0)] =
     [[(1 / 2, 1 / 2), (3 / 2, 1 / 2), (3 / 2, 3 / 2), (1 / 2, 3 / 2)],
      [(299 / 200, 1 / 2), (499 / 200, 1 / 2), (499 / 200, 3 / 2), (299 / 200, 3 / 2)]]"
  by (simp add: footprints_def rect_footprint stool_def)

lemma strip_overlaps:
  "rect_overlap [(1 / 2, 1 / 2), (3 / 2, 1 / 2), (3 / 2, 3 / 2), (1 / 2, 3 / 2)]
     [(299 / 200, 1 / 2), (499 / 200, 1 / 2), (499 / 200, 3 / 2), (299 / 200, 3 / 2)] = 1 / 200"
  "rect_overlap [(299 / 200, 1 / 2), (499 / 200, 1 / 2), (499 / 200, 3 / 2), (299 / 200, 3 / 2)]
     [(1 / 2, 1 / 2), (3 / 2, 1 / 2), (3 / 2, 3 / 2), (1 / 2, 3 / 2)] = 1 / 200"
  "rect_overlap [(1 / 2, 1 / 2), (3 / 2, 1 / 2), (3 / 2, 3 / 2), (1 / 2, 3 / 2)]
     [(1 / 2, 1 / 2), (3 / 2, 1 / 2), (3 / 2, 3 / 2), (1 / 2, 3 / 2)] = 1"
  "rect_overlap [(299 / 200, 1 / 2), (499 / 200, 1 / 2), (499 / 200, 3 / 2), (299 / 200, 3 / 2)]
     [(299 / 200, 1 / 2), (499 / 200, 1 / 2), (499 / 200, 3 / 2), (299 / 200, 3 / 2)] = 1"
  by (simp_all add: rect_overlap_box)


lemma strip_penalty:
  "spec_penalty (\<lambda>p. True) rect_overlap
     [[(1 / 2, 1 / 2), (3 / 2, 1 / 2), (3 / 2, 3 / 2), (1 / 2, 3 / 2)],
      [(299 / 200, 1 / 2), (499 / 200, 1 / 2), (499 / 200, 3 / 2), (299 / 200, 3 / 2)]] = 5 / 2"
  by (simp add: spec_penalty_def unordered_pairs_2 strip_overlaps)

lemma strip_inside:
  "rect_inside square_room [(1 / 2, 1 / 2), (3 / 2, 1 / 2), (3 / 2, 3 / 2), (1 / 2, 3 / 2)]"
  "rect_inside square_room
     [(299 / 200, 1 / 2), (499 / 200, 1 / 2), (499 / 200, 3 / 2), (299 / 200, 3 / 2)]"
  by (simp_all add: square_room_def rect_inside_box)

theorem thresholds_differ_witness:
  "length [(1, 1, 0), (399 / 200, 1, 0 :: int)] = length [stool, stool] \<and>
   check_hard_constraints rect_shapely square_room
     [(1 / 2, 1 / 2), (3 / 2, 1 / 2), (3 / 2, 3 / 2), (1 / 2, 3 / 2)]
     [[(299 / 200, 1 / 2), (499 / 200, 1 / 2), (499 / 200, 3 / 2), (299 / 200, 3 / 2)]] =
     Inr True \<and>
   check_hard_constraints rect_shapely square_room
     [(299 / 200, 1 / 2), (499 / 200, 1 / 2), (499 / 200, 3 / 2), (299 / 200, 3 / 2)]
     [[(1 / 2, 1 / 2), (3 / 2, 1 / 2), (3 / 2, 3 / 2), (1 / 2, 3 / 2)]] = Inr True \<and>
   calculate_fitness rect_shapely square_room [stool, stool] [(1, 1, 0), (399 / 200, 1, 0)] =
     Inr (- (5 / 2))"
proof -
  let ?A = "[(1 / 2, 1 / 2), (3 / 2, 1 / 2), (3 / 2, 3 / 2), (1 / 2, 3 / 2)] :: polygon"
  let ?B = "[(299 / 200, 1 / 2), (499 / 200, 1 / 2), (499 / 200, 3 / 2), (299 / 200, 3 / 2)] :: polygon"
  let ?layout = "[(1, 1, 0), (399 / 200, 1, 0)] :: layout"
  let ?polys = "footprints rect_shapely [stool, stool] ?layout"
  have fp: "?polys = [?A, ?B]" by (rule strip_footprints)
  have h1: "length ?layout = length [stool, stool]" by simp
  have h2: "\<forall>p \<in> set ?polys. check_boundary rect_shapely square_room p = Inr True"
    unfolding fp by (simp add: rect_check_boundary strip_inside)
  have h3: "\<forall>k < length ?polys. \<forall>m < length ?polys. k \<noteq> m \<longrightarrow>
              calculate_overlap_area rect_shapely (?polys ! k) (?polys ! m) =
                Inr (rect_overlap (?polys ! k) (?polys ! m)) \<and>
              rect_overlap (?polys ! k) (?polys ! m) \<le> 0.01"
    unfolding fp by (simp add: rect_calculate_overlap_area less_Suc_eq strip_overlaps)
  have h4: "\<exists>i j. i < j \<and> j < length ?polys \<and> rect_overlap (?polys ! i) (?polys ! j) > 0"
    unfolding fp by (rule exI [of _ 0], rule exI [of _ 1]) (simp add: strip_overlaps)
  note t = thresholds_differ [OF h1 h2 h3 h4, unfolded fp]
  have k0: "check_hard_constraints rect_shapely square_room ([?A, ?B] ! 0)
                     (take 0 [?A, ?B] @ drop (Suc 0) [?A, ?B]) = Inr True"
    using t [THEN conjunct1, THEN spec, of 0] by simp
  have k1: "check_hard_constraints rect_shapely square_room ([?A, ?B] ! 1)
                     (take 1 [?A, ?B] @ drop (Suc 1) [?A, ?B]) = Inr True"
    using t [THEN conjunct1, THEN spec, of 1] by simp
  from t have fit: "calculate_fitness rect_shapely square_room [stool, stool] ?layout =
                      Inr (- (5 / 2))"
    by (simp add: strip_penalty)
  from h1 k0 k1 fit show ?thesis by simp
qed

section \<open>The overlap area\<close>

















section \<open>The feature vector of the approximator\<close>

lemma wide_optimizer_fields:
  "geom wide_optimizer = rect_shapely"
  "room_poly wide_optimizer = wide_room"
  "furniture_items wide_optimizer = [stool]"
  "room_bounds wide_optimizer = (0, 0, 8, 2)"
  "ml_model wide_optimizer = Some probe_model"
  "shp_area rect_shapely wide_room = 16"
  by (simp_all add: wide_optimizer_def GeneticOptimizer_init_def load_ml_model_def
      loadable_artifact_def rect_shapely_def wide_room_def rect_bounds_def rect_area_def
      coords_min_def coords_max_def)

text \<open>
  Claim C7, as stated, puts the room's aspect ratio, the door count and the window count
  into the feature vector. In \<^verbatim>\<open>_get_ml_score\<close> these three entries are the constants
  \<open>1.0\<close>, \<open>0.25\<close> and \<open>0.25\<close>, marked as placeholders: for the room of eight by two
  metres, whose aspect ratio is \<open>4\<close>, the second entry is \<open>1\<close>, and a model that returns
  that entry scores \<open>100\<close>.
\<close>

theorem features_placeholder_counterexample:
  "ml_features wide_optimizer [(1, 1, 0)] = Inr [8 / 25, 1, 1 / 4, 1 / 4, 1 / 20, 1 / 8, 1 / 2] \<and>
   room_aspect_ratio (room_bounds wide_optimizer) = 4 \<and>
   get_ml_score wide_optimizer [(1, 1, 0)] = Inr 100"
  by (simp add: ml_features_def get_ml_score_def wide_optimizer_fields room_aspect_ratio_def
      probe_model_def Let_def)

text \<open>
  Claim C7, amended. For a non-empty candidate and a loaded model, \<^verbatim>\<open>_get_ml_score\<close> builds
  the vector of the room area divided by \<open>50\<close>, the constants \<open>1\<close>, \<open>0.25\<close>, \<open>0.25\<close>, the
  number of furniture items divided by \<open>20\<close>, and the mean \<open>x\<close> and mean \<open>y\<close> of the
  placements divided by the width and the height of the room's bounding box (\<open>0\<close> when
  that extent is not positive), and returns the model's output times \<open>100\<close>. Without a
  model it returns \<open>0\<close>.
\<close>

theorem get_ml_score_features:
  assumes ne: "individual \<noteq> []"
    and m: "ml_model self = Some model"
  shows "get_ml_score self individual =
           (case room_bounds self of (min_x, min_y, max_x, max_y) \<Rightarrow>
              Inr (model [shp_area (geom self) (room_poly self) / 50, 1, 0.25, 0.25,
                          real (length (furniture_items self)) / 20,
                          (if max_x - min_x > 0
                           then (sum_list (map fst individual) / real (length individual)) /
                                (max_x - min_x)
                           else 0),
                          (if max_y - min_y > 0
                           then (sum_list (map (\<lambda>p. fst (snd p)) individual) /
                                 real (length individual)) / (max_y - min_y)
                           else 0)] * 100)) \<and>
         get_ml_score (self\<lparr>ml_model := None\<rparr>) individual = Inr 0"
  using ne m
  by (simp add: get_ml_score_def ml_features_def Let_def split: prod.splits)

theorem get_ml_score_features_witness:
  "[(1, 1, 0 :: int)] \<noteq> [] \<and> ml_model wide_optimizer = Some probe_model \<and>
   get_ml_score wide_optimizer [(1 :: real, 1 :: real, 0 :: int)] =
     Inr (probe_model [8 / 25, 1, 1 / 4, 1 / 4, 1 / 20, 1 / 8, 1 / 2] * 100) \<and>
   get_ml_score (wide_optimizer\<lparr>ml_model := None\<rparr>) [(1, 1, 0)] = Inr 0"
proof -
  have h1: "[(1 :: real, 1 :: real, 0 :: int)] \<noteq> []" by simp
  have h2: "ml_model wide_optimizer = Some probe_model" by (rule wide_optimizer_fields)
  from get_ml_score_features [OF h1 h2] h2 show ?thesis
    by (simp add: wide_optimizer_fields)
qed

section \<open>The population across generations\<close>










subsection \<open>One generation\<close>










subsection \<open>A run of two stools in the square room\<close>

lemma rng_tail_zero [simp]: "rng_tail (rng_of []) = rng_of []"
  by (simp add: rng_tail_def rng_of_def)















section \<open>A furniture list with one item\<close>

lemma single_optimizer_fields:
  "geom single_optimizer = rect_shapely"
  "room_poly single_optimizer = square_room"
  "furniture_items single_optimizer = [stool]"
  "pop_size single_optimizer = 2"
  "generations single_optimizer = 1"
  "room_bounds single_optimizer = (0, 0, 4, 4)"
  "ml_model single_optimizer = None"
  by (simp_all add: single_optimizer_def GeneticOptimizer_init_def load_ml_model_def
      missing_artifact_def rect_shapely_def rect_bounds_def square_room_def coords_min_def
      coords_max_def)

lemma single_individual:
  "create_individual (0, 0, 4, 4) [stool] (rng_of []) = Inr ([(0, 0, 0)], rng_of [])"
  by (simp add: create_individual_def random_uniform_def random_random_def get_rotatable_def
      stool_def)

lemma single_init:
  "init_population single_optimizer 2 (rng_of []) =
     Inr ([[(0, 0, 0)], [(0, 0, 0)]], rng_of [])"
  by (simp add: numeral_2_eq_2 single_optimizer_fields single_individual)

lemma single_fitness:
  "calculate_fitness rect_shapely square_room [stool] [(0, 0, 0)] = Inr (- 1000)"
proof -
  have fp: "create_furniture_polygon_wrapper rect_shapely stool 0 0 0 =
              [(- (1 / 2), - (1 / 2)), (1 / 2, - (1 / 2)), (1 / 2, 1 / 2), (- (1 / 2), 1 / 2)]"
    by (simp add: rect_footprint stool_def)
  have out: "check_boundary rect_shapely square_room
               [(- (1 / 2), - (1 / 2)), (1 / 2, - (1 / 2)), (1 / 2, 1 / 2), (- (1 / 2), 1 / 2)] =
             Inr False"
    by (simp add: rect_check_boundary square_room_def rect_inside_box)
  show ?thesis
    by (simp add: calculate_fitness_def fp out)
qed

lemma single_evaluation:
  "evaluate_population single_optimizer [[(0, 0, 0)], [(0, 0, 0)]] = Inr [- 1000, - 1000]"
  by (simp add: final_score_def single_optimizer_fields single_fitness)

lemma single_breed:
  "breed single_optimizer [[(0, 0, 0)], [(0, 0, 0)]] [] (rng_of []) = Inl ValueError"
  by (subst breed.simps)
     (simp add: single_optimizer_fields random_randint_def crossover_def)

lemma single_generation:
  "generation single_optimizer [[(0, 0, 0)], [(0, 0, 0)]] (None, None) (rng_of []) =
     Inl ValueError"
  unfolding generation_def single_evaluation single_breed
  by (simp add: track_best_def)

text \<open>
  Claim C4. No step of the optimisation raises for a non-empty furniture list, a list with
  exactly one item included. Crossover is such a step, and for a furniture list with exactly
  one item it raises \<^verbatim>\<open>ValueError\<close> whatever the parents and the generator state are:
  \<^verbatim>\<open>random.randint(1, 0)\<close> has an empty range. The exception is not handled on the way
  up, so \<^verbatim>\<open>optimize\<close> raises it in its first generation, here for one stool in the
  square room with a population of two.
\<close>

theorem crossover_single_item_raises:
  "crossover [item] parent1 parent2 g = Inl ValueError \<and>
   length (furniture_items single_optimizer) = 1 \<and>
   optimize single_optimizer (rng_of []) = Inl ValueError"
proof -
  have c: "crossover [item] parent1 parent2 g = Inl ValueError"
    by (simp add: crossover_def random_randint_def)
  have o: "optimize single_optimizer (rng_of []) = Inl ValueError"
    by (simp add: optimize_def single_optimizer_fields single_init single_generation)
  from c o show ?thesis by (simp add: single_optimizer_fields)
qed

end
